theory Spec2Isabelle
  imports Complex_Main
begin

section \<open>Numbers: exact reals with the special values of numpy's float64\<close>

text \<open>
  The arrays of \<^verbatim>\<open>bclustering/metric.py\<close> hold float64 numbers. The model computes with
  exact reals (no rounding, no overflow) and keeps the three special values that numpy
  produces instead of raising: a division by zero gives \<open>inf\<close> or \<open>nan\<close>, the
  square root of a negative number gives \<open>nan\<close>. Zero has no sign in the model (it
  behaves as \<open>+0.0\<close>).
\<close>

datatype fval = Fin real | PInf | NInf | NaN

fun fneg :: "fval \<Rightarrow> fval" where
  "fneg (Fin x) = Fin (- x)"
| "fneg PInf = NInf"
| "fneg NInf = PInf"
| "fneg NaN = NaN"

fun fadd :: "fval \<Rightarrow> fval \<Rightarrow> fval" where
  "fadd (Fin x) (Fin y) = Fin (x + y)"
| "fadd NaN b = NaN"
| "fadd a NaN = NaN"
| "fadd PInf NInf = NaN"
| "fadd NInf PInf = NaN"
| "fadd PInf b = PInf"
| "fadd a PInf = PInf"
| "fadd NInf b = NInf"
| "fadd a NInf = NInf"

definition fsub :: "fval \<Rightarrow> fval \<Rightarrow> fval" where
  "fsub a b = fadd a (fneg b)"

text \<open>The sign of a value: \<open>1\<close>, \<open>-1\<close> or \<open>0\<close>; only read where the value is not \<open>NaN\<close>.\<close>

fun fsign :: "fval \<Rightarrow> int" where
  "fsign (Fin x) = (if x > 0 then 1 else if x < 0 then - 1 else 0)"
| "fsign PInf = 1"
| "fsign NInf = - 1"
| "fsign NaN = 0"

definition inf_of_sign :: "int \<Rightarrow> fval" where
  "inf_of_sign s = (if s > 0 then PInf else if s < 0 then NInf else NaN)"

fun fmul :: "fval \<Rightarrow> fval \<Rightarrow> fval" where
  "fmul (Fin x) (Fin y) = Fin (x * y)"
| "fmul NaN b = NaN"
| "fmul a NaN = NaN"
| "fmul a b = inf_of_sign (fsign a * fsign b)"

text \<open>
  Division: \<open>x / 0\<close> is \<open>nan\<close> for \<open>x = 0\<close> and an infinity with the sign of \<open>x\<close>
  otherwise; a finite number over an infinity is zero; an infinity over an infinity
  is \<open>nan\<close>.
\<close>

fun fdiv :: "fval \<Rightarrow> fval \<Rightarrow> fval" where
  "fdiv (Fin x) (Fin y) = (if y = 0 then inf_of_sign (fsign (Fin x)) else Fin (x / y))"
| "fdiv NaN b = NaN"
| "fdiv a NaN = NaN"
| "fdiv (Fin x) b = Fin 0"
| "fdiv a (Fin y) = inf_of_sign (fsign a * (if y < 0 then - 1 else 1))"
| "fdiv a b = NaN"

fun fsqrt :: "fval \<Rightarrow> fval" where
  "fsqrt (Fin x) = (if x < 0 then NaN else Fin (sqrt x))"
| "fsqrt PInf = PInf"
| "fsqrt NInf = NaN"
| "fsqrt NaN = NaN"

definition fsquare :: "fval \<Rightarrow> fval" where
  "fsquare a = fmul a a"

definition fsum :: "fval list \<Rightarrow> fval" where
  "fsum xs = foldl fadd (Fin 0) xs"

fun is_fin :: "fval \<Rightarrow> bool" where
  "is_fin (Fin x) = True"
| "is_fin a = False"

fun the_fin :: "fval \<Rightarrow> real" where
  "the_fin (Fin x) = x"
| "the_fin a = 0"


section \<open>Arrays: a shape and the entries in row-major order\<close>

text \<open>
  A numpy array is its shape and its entries, stored row by row. The program builds
  arrays of rank 0 to 3 only. \<open>mk1\<close>, \<open>mk2\<close>, \<open>mk3\<close> tabulate an array from a function
  of the indices; \<open>at1\<close>, \<open>at2\<close>, \<open>at3\<close> read an entry.
\<close>

record ndarray =
  shape :: "nat list"
  flat :: "fval list"

definition wf_array :: "ndarray \<Rightarrow> bool" where
  "wf_array a = (length (flat a) = prod_list (shape a))"

definition scalar :: "fval \<Rightarrow> ndarray" where
  "scalar x = \<lparr>shape = [], flat = [x]\<rparr>"

definition mk1 :: "nat \<Rightarrow> (nat \<Rightarrow> fval) \<Rightarrow> ndarray" where
  "mk1 n f = \<lparr>shape = [n], flat = map f [0..<n]\<rparr>"

definition mk2 :: "nat \<Rightarrow> nat \<Rightarrow> (nat \<Rightarrow> nat \<Rightarrow> fval) \<Rightarrow> ndarray" where
  "mk2 r c f = \<lparr>shape = [r, c],
     flat = map (\<lambda>(i, j). f i j) (List.product [0..<r] [0..<c])\<rparr>"

definition mk3 :: "nat \<Rightarrow> nat \<Rightarrow> nat \<Rightarrow> (nat \<Rightarrow> nat \<Rightarrow> nat \<Rightarrow> fval) \<Rightarrow> ndarray" where
  "mk3 n r c f = \<lparr>shape = [n, r, c],
     flat = map (\<lambda>(k, i, j). f k i j)
              (List.product [0..<n] (List.product [0..<r] [0..<c]))\<rparr>"

definition at1 :: "ndarray \<Rightarrow> nat \<Rightarrow> fval" where
  "at1 a i = flat a ! i"

definition at2 :: "ndarray \<Rightarrow> nat \<Rightarrow> nat \<Rightarrow> fval" where
  "at2 a i j = flat a ! (i * (shape a ! 1) + j)"

definition at3 :: "ndarray \<Rightarrow> nat \<Rightarrow> nat \<Rightarrow> nat \<Rightarrow> fval" where
  "at3 a k i j = flat a ! (k * (shape a ! 1 * shape a ! 2) + (i * (shape a ! 2) + j))"

definition amap :: "(fval \<Rightarrow> fval) \<Rightarrow> ndarray \<Rightarrow> ndarray" where
  \<comment> \<open>an elementwise function: \<^verbatim>\<open>np.sqrt\<close>, \<^verbatim>\<open>np.square\<close>\<close>
  "amap f a = \<lparr>shape = shape a, flat = map f (flat a)\<rparr>"

subsection \<open>Broadcasting\<close>

text \<open>
  numpy aligns two shapes at their last axis; along an axis the two lengths must be
  equal, or one of them is 1 and that operand is repeated. \<open>bdims\<close> is the common
  length of the axes given, \<open>bidx d i\<close> the index read in an operand whose axis has
  length \<open>d\<close>.
\<close>

definition bdims :: "nat list \<Rightarrow> nat option" where
  "bdims ds = (let nz = filter (\<lambda>d. d \<noteq> 1) ds in
     if nz = [] then Some 1
     else if list_all (\<lambda>d. d = hd nz) nz then Some (hd nz) else None)"

definition bidx :: "nat \<Rightarrow> nat \<Rightarrow> nat" where
  "bidx d i = (if d = 1 then 0 else i)"

definition bat1 :: "ndarray \<Rightarrow> nat \<Rightarrow> fval" where
  "bat1 a i = at1 a (bidx (shape a ! 0) i)"

definition bat2 :: "ndarray \<Rightarrow> nat \<Rightarrow> nat \<Rightarrow> fval" where
  "bat2 a i j = at2 a (bidx (shape a ! 0) i) (bidx (shape a ! 1) j)"

definition bat3 :: "ndarray \<Rightarrow> nat \<Rightarrow> nat \<Rightarrow> nat \<Rightarrow> fval" where
  "bat3 a k i j = at3 a (bidx (shape a ! 0) k) (bidx (shape a ! 1) i) (bidx (shape a ! 2) j)"

text \<open>
  An array of rank at most 3 read as a rank-3 array: missing leading axes have length 1
  (which leaves the row-major position of every entry unchanged).
\<close>

definition pad3 :: "nat list \<Rightarrow> nat list" where
  "pad3 s = replicate (3 - length s) 1 @ s"

definition get3 :: "ndarray \<Rightarrow> nat \<Rightarrow> nat \<Rightarrow> nat \<Rightarrow> fval" where
  "get3 a k i j = (let s = pad3 (shape a) in
     flat a ! (bidx (s ! 0) k * (s ! 1 * s ! 2) + (bidx (s ! 1) i * (s ! 2) + bidx (s ! 2) j)))"

datatype error = ValueError | NotImplementedError | LinAlgError | IndexError | TypeError
  | NonFiniteInput

text \<open>
  A binary operator on two arrays (\<^verbatim>\<open>a / b\<close>, \<^verbatim>\<open>a - b\<close>, \<^verbatim>\<open>a + b\<close>): the shapes are
  broadcast, and shapes that do not fit raise ValueError. The result has the larger of
  the two ranks. The program applies its operators to arrays of rank at most 3; a higher
  rank, which no call reaches, is answered by ValueError.
\<close>

definition binop :: "(fval \<Rightarrow> fval \<Rightarrow> fval) \<Rightarrow> ndarray \<Rightarrow> ndarray \<Rightarrow> error + ndarray" where
  "binop f a b =
     (if length (shape a) > 3 \<or> length (shape b) > 3 then Inl ValueError
      else let sa = pad3 (shape a); sb = pad3 (shape b);
               rk = max (length (shape a)) (length (shape b)) in
        (case (bdims [sa ! 0, sb ! 0], bdims [sa ! 1, sb ! 1], bdims [sa ! 2, sb ! 2]) of
           (Some d0, Some d1, Some d2) \<Rightarrow>
             Inr \<lparr>shape = drop (3 - rk) [d0, d1, d2],
                  flat = flat (mk3 d0 d1 d2 (\<lambda>k i j. f (get3 a k i j) (get3 b k i j)))\<rparr>
         | _ \<Rightarrow> Inl ValueError))"

text \<open>
  The in-place operators (\<^verbatim>\<open>a /= b\<close>, \<^verbatim>\<open>a += b\<close>) write into \<open>a\<close>: the broadcast
  shape must be the shape of \<open>a\<close>, else ValueError is raised and nothing is written.
\<close>

definition inplace_op :: "(fval \<Rightarrow> fval \<Rightarrow> fval) \<Rightarrow> ndarray \<Rightarrow> ndarray \<Rightarrow> error + ndarray" where
  "inplace_op f a b =
     (case binop f a b of
        Inl e \<Rightarrow> Inl e
      | Inr r \<Rightarrow> if shape r = shape a then Inr r else Inl ValueError)"

text \<open>
  A shape \<open>s\<close> can be broadcast to a shape \<open>t\<close> when it has at most the rank of \<open>t\<close> and,
  aligned at the last axis, every axis of \<open>s\<close> has the length of the axis of \<open>t\<close> or
  length 1.
\<close>

definition fits :: "nat \<Rightarrow> nat \<Rightarrow> bool" where
  "fits d t = (d = t \<or> d = 1)"

definition broadcasts_to :: "nat list \<Rightarrow> nat list \<Rightarrow> bool" where
  "broadcasts_to s t =
     (length s \<le> length t \<and> list_all2 fits s (drop (length t - length s) t))"

subsection \<open>The numpy functions the program calls\<close>

definition diagonal2 :: "ndarray \<Rightarrow> ndarray" where
  \<comment> \<open>\<^verbatim>\<open>m.diagonal()\<close> of a rank-2 array\<close>
  "diagonal2 m = mk1 (min (shape m ! 0) (shape m ! 1)) (\<lambda>i. at2 m i i)"

definition diagonal3 :: "ndarray \<Rightarrow> ndarray" where
  \<comment> \<open>\<^verbatim>\<open>m.diagonal(axis1=1, axis2=2)\<close> of a rank-3 array\<close>
  "diagonal3 m = mk2 (shape m ! 0) (min (shape m ! 1) (shape m ! 2)) (\<lambda>k i. at3 m k i i)"

definition outer :: "ndarray \<Rightarrow> ndarray \<Rightarrow> ndarray" where
  \<comment> \<open>\<^verbatim>\<open>np.outer(a, b)\<close>: both arguments are read as flat vectors\<close>
  "outer a b = mk2 (length (flat a)) (length (flat b))
                 (\<lambda>i j. fmul (flat a ! i) (flat b ! j))"

definition einsum_ki_kj_kij :: "ndarray \<Rightarrow> ndarray \<Rightarrow> error + ndarray" where
  \<comment> \<open>\<^verbatim>\<open>np.einsum("ki,kj->kij", a, b)\<close>\<close>
  "einsum_ki_kj_kij a b =
     (if length (shape a) \<noteq> 2 \<or> length (shape b) \<noteq> 2 then Inl ValueError
      else case bdims [shape a ! 0, shape b ! 0] of
        None \<Rightarrow> Inl ValueError
      | Some dk \<Rightarrow> Inr (mk3 dk (shape a ! 1) (shape b ! 1)
                         (\<lambda>k i j. fmul (bat2 a k i) (bat2 b k j))))"

definition einsum_ij_i_j_ij :: "ndarray \<Rightarrow> ndarray \<Rightarrow> ndarray \<Rightarrow> error + ndarray" where
  \<comment> \<open>\<^verbatim>\<open>np.einsum("ij,i,j->ij", a, u, v)\<close>\<close>
  "einsum_ij_i_j_ij a u v =
     (if length (shape a) \<noteq> 2 \<or> length (shape u) \<noteq> 1 \<or> length (shape v) \<noteq> 1
      then Inl ValueError
      else case (bdims [shape a ! 0, shape u ! 0], bdims [shape a ! 1, shape v ! 0]) of
        (Some di, Some dj) \<Rightarrow>
          Inr (mk2 di dj (\<lambda>i j. fmul (fmul (bat2 a i j) (bat1 u i)) (bat1 v j)))
      | _ \<Rightarrow> Inl ValueError)"

definition einsum_kij_ki_kj_kij :: "ndarray \<Rightarrow> ndarray \<Rightarrow> ndarray \<Rightarrow> error + ndarray" where
  \<comment> \<open>\<^verbatim>\<open>np.einsum("kij,ki,kj->kij", a, u, v)\<close>\<close>
  "einsum_kij_ki_kj_kij a u v =
     (if length (shape a) \<noteq> 3 \<or> length (shape u) \<noteq> 2 \<or> length (shape v) \<noteq> 2
      then Inl ValueError
      else case (bdims [shape a ! 0, shape u ! 0, shape v ! 0],
                 bdims [shape a ! 1, shape u ! 1], bdims [shape a ! 2, shape v ! 1]) of
        (Some dk, Some di, Some dj) \<Rightarrow>
          Inr (mk3 dk di dj (\<lambda>k i j. fmul (fmul (bat3 a k i j) (bat2 u k i)) (bat2 v k j)))
      | _ \<Rightarrow> Inl ValueError)"

definition einsum_ij_ki_kj_kij :: "ndarray \<Rightarrow> ndarray \<Rightarrow> ndarray \<Rightarrow> error + ndarray" where
  \<comment> \<open>\<^verbatim>\<open>np.einsum("ij,ki,kj->kij", a, u, v)\<close>\<close>
  "einsum_ij_ki_kj_kij a u v =
     (if length (shape a) \<noteq> 2 \<or> length (shape u) \<noteq> 2 \<or> length (shape v) \<noteq> 2
      then Inl ValueError
      else case (bdims [shape u ! 0, shape v ! 0],
                 bdims [shape a ! 0, shape u ! 1], bdims [shape a ! 1, shape v ! 1]) of
        (Some dk, Some di, Some dj) \<Rightarrow>
          Inr (mk3 dk di dj (\<lambda>k i j. fmul (fmul (bat2 a i j) (bat2 u k i)) (bat2 v k j)))
      | _ \<Rightarrow> Inl ValueError)"

definition einsum_kij_kj_ki :: "ndarray \<Rightarrow> ndarray \<Rightarrow> error + ndarray" where
  \<comment> \<open>\<^verbatim>\<open>np.einsum("kij,kj->ki", a, u)\<close>: the sum runs over \<open>j\<close>\<close>
  "einsum_kij_kj_ki a u =
     (if length (shape a) \<noteq> 3 \<or> length (shape u) \<noteq> 2 then Inl ValueError
      else case (bdims [shape a ! 0, shape u ! 0], bdims [shape a ! 2, shape u ! 1]) of
        (Some dk, Some dj) \<Rightarrow>
          Inr (mk2 dk (shape a ! 1)
                 (\<lambda>k i. fsum (map (\<lambda>j. fmul (bat3 a k i j) (bat2 u k j)) [0..<dj])))
      | _ \<Rightarrow> Inl ValueError)"

definition einsum_k_li_kli :: "ndarray \<Rightarrow> ndarray \<Rightarrow> error + ndarray" where
  \<comment> \<open>\<^verbatim>\<open>np.einsum("k,li->kli", v, a)\<close>\<close>
  "einsum_k_li_kli v a =
     (if length (shape v) \<noteq> 1 \<or> length (shape a) \<noteq> 2 then Inl ValueError
      else Inr (mk3 (shape v ! 0) (shape a ! 0) (shape a ! 1)
                  (\<lambda>k l i. fmul (at1 v k) (at2 a l i))))"

definition einsum_kli_kl :: "ndarray \<Rightarrow> error + ndarray" where
  \<comment> \<open>\<^verbatim>\<open>np.einsum("kli->kl", a)\<close>: the sum runs over \<open>i\<close>\<close>
  "einsum_kli_kl a =
     (if length (shape a) \<noteq> 3 then Inl ValueError
      else Inr (mk2 (shape a ! 0) (shape a ! 1)
                  (\<lambda>k l. fsum (map (\<lambda>i. at3 a k l i) [0..<shape a ! 2]))))"

definition transpose_102 :: "ndarray \<Rightarrow> ndarray" where
  \<comment> \<open>\<^verbatim>\<open>np.transpose(a, (1, 0, 2))\<close> of a rank-3 array\<close>
  "transpose_102 a = mk3 (shape a ! 1) (shape a ! 0) (shape a ! 2) (\<lambda>k l i. at3 a l k i)"

definition transpose2 :: "ndarray \<Rightarrow> ndarray" where
  \<comment> \<open>\<^verbatim>\<open>a.T\<close> of a rank-2 array\<close>
  "transpose2 a = mk2 (shape a ! 1) (shape a ! 0) (\<lambda>i j. at2 a j i)"

definition tile_rows :: "ndarray \<Rightarrow> nat \<Rightarrow> ndarray" where
  \<comment> \<open>\<^verbatim>\<open>np.tile(v, (reps, 1))\<close> of a rank-1 array: \<open>reps\<close> rows, each a copy of \<open>v\<close>\<close>
  "tile_rows v reps = mk2 reps (shape v ! 0) (\<lambda>r k. at1 v k)"

definition tile_mats :: "ndarray \<Rightarrow> nat \<Rightarrow> ndarray" where
  \<comment> \<open>\<^verbatim>\<open>np.tile(m, (reps, 1, 1))\<close> of a rank-2 array: \<open>reps\<close> copies of \<open>m\<close>\<close>
  "tile_mats m reps = mk3 reps (shape m ! 0) (shape m ! 1) (\<lambda>k i j. at2 m i j)"

definition delta :: "nat \<Rightarrow> nat \<Rightarrow> fval" where
  "delta i j = (if i = j then Fin 1 else Fin 0)"

definition identity :: "nat \<Rightarrow> ndarray" where
  "identity b = mk2 b b delta"

definition ones2 :: "nat \<Rightarrow> nat \<Rightarrow> ndarray" where
  "ones2 r c = mk2 r c (\<lambda>i j. Fin 1)"

definition zeros3 :: "nat \<Rightarrow> nat \<Rightarrow> nat \<Rightarrow> ndarray" where
  "zeros3 n r c = mk3 n r c (\<lambda>k i j. Fin 0)"

definition sum_axis1 :: "ndarray \<Rightarrow> ndarray" where
  \<comment> \<open>\<^verbatim>\<open>np.sum(a, axis=1)\<close> of a rank-2 array\<close>
  "sum_axis1 a = mk1 (shape a ! 0) (\<lambda>k. fsum (map (\<lambda>i. at2 a k i) [0..<shape a ! 1]))"


section \<open>The covariance algebra\<close>

definition cov2err :: "ndarray \<Rightarrow> error + ndarray" where
  "cov2err c =
     (if length (shape c) = 2 then Inr (amap fsqrt (diagonal2 c))
      else if length (shape c) = 3 then Inr (amap fsqrt (diagonal3 c))
      else Inl ValueError)"

definition cov2corr :: "ndarray \<Rightarrow> error + ndarray" where
  "cov2corr c =
     (case cov2err c of
        Inl e \<Rightarrow> Inl e
      | Inr er \<Rightarrow>
          if length (shape c) = 2 then binop fdiv c (outer er er)
          else if length (shape c) = 3 then
            (case einsum_ki_kj_kij er er of
               Inl e \<Rightarrow> Inl e
             | Inr d \<Rightarrow> binop fdiv c d)
          else Inl ValueError)"

definition corr2cov :: "ndarray \<Rightarrow> ndarray \<Rightarrow> error + ndarray" where
  "corr2cov cr er =
     (if length (shape cr) = 2 then einsum_ij_i_j_ij cr er er
      else if length (shape cr) = 3 then einsum_kij_ki_kj_kij cr er er
      else Inl ValueError)"

definition rel2abs_cov :: "ndarray \<Rightarrow> ndarray \<Rightarrow> error + ndarray" where
  "rel2abs_cov c d = einsum_ij_ki_kj_kij c d d"

definition abs2rel_cov :: "ndarray \<Rightarrow> 'a \<Rightarrow> error + ndarray" where
  "abs2rel_cov c d = Inl NotImplementedError"

definition cov_roundtrip :: "ndarray \<Rightarrow> error + ndarray" where
  \<comment> \<open>the composite \<^verbatim>\<open>corr2cov(cov2corr(c), cov2err(c))\<close> of the round-trip law\<close>
  "cov_roundtrip c =
     (case cov2corr c of
        Inl e \<Rightarrow> Inl e
      | Inr cr \<Rightarrow> (case cov2err c of Inl e \<Rightarrow> Inl e | Inr er \<Rightarrow> corr2cov cr er))"


section \<open>Matrix inversion\<close>

text \<open>
  \<^verbatim>\<open>np.linalg.inv\<close> on a stack of square matrices. In exact arithmetic the inverse of
  a matrix is unique, so the model computes it by cofactors: the entry \<open>(i, j)\<close> of the
  inverse is \<open>(-1)^(i+j)\<close> times the determinant of the matrix without row \<open>j\<close> and
  column \<open>i\<close>, over the determinant. A singular matrix raises LinAlgError, as does a
  stack whose matrices are not square. The program calls the function on the rank-3
  correlation tensor only, and the model answers every other rank by LinAlgError.
  What LAPACK returns on a matrix that holds \<open>inf\<close> or \<open>nan\<close> is not fixed by numpy;
  the model stops there with \<open>NonFiniteInput\<close>, and nothing below is proved about
  that case.
\<close>

definition del_nth :: "nat \<Rightarrow> 'a list \<Rightarrow> 'a list" where
  "del_nth k xs = take k xs @ drop (Suc k) xs"

function det :: "real list list \<Rightarrow> real" where
  "det [] = 1"
| "det (r # rs) =
     sum_list (map (\<lambda>j. (- 1) ^ j * (r ! j) * det (map (del_nth j) rs)) [0..<length r])"
  by pat_completeness auto
termination
  by (relation "measure length") auto

definition inv_entry :: "real list list \<Rightarrow> nat \<Rightarrow> nat \<Rightarrow> real" where
  "inv_entry m i j = (- 1) ^ (i + j) * det (map (del_nth i) (del_nth j m)) / det m"

definition mat_of :: "ndarray \<Rightarrow> nat \<Rightarrow> real list list" where
  \<comment> \<open>the matrix \<open>k\<close> of a rank-3 array, as rows of reals\<close>
  "mat_of a k = map (\<lambda>i. map (\<lambda>j. the_fin (at3 a k i j)) [0..<shape a ! 2]) [0..<shape a ! 1]"

definition linalg_inv :: "ndarray \<Rightarrow> error + ndarray" where
  "linalg_inv a =
     (case shape a of
        [n, r, c] \<Rightarrow>
          if r \<noteq> c then Inl LinAlgError
          else if \<not> list_all is_fin (flat a) then Inl NonFiniteInput
          else if list_ex (\<lambda>k. det (mat_of a k) = 0) [0..<n] then Inl LinAlgError
          else Inr (mk3 n r r (\<lambda>k i j. Fin (inv_entry (mat_of a k) i j)))
      | _ \<Rightarrow> Inl LinAlgError)"


section \<open>The dataset with errors\<close>

text \<open>
  The class \<^verbatim>\<open>DataWithErrors\<close>: the fields \<^verbatim>\<open>_data\<close>, \<^verbatim>\<open>n\<close>, \<^verbatim>\<open>nbins\<close> and \<^verbatim>\<open>_cov\<close>.
  A method that mutates the object returns the raised error, if any, and the object
  after the call.
\<close>

record DataWithErrors =
  self_data :: ndarray
  self_n :: nat
  self_nbins :: nat
  self_cov :: ndarray

definition and_then :: "error + 'a \<Rightarrow> ('a \<Rightarrow> error + 'b) \<Rightarrow> error + 'b" where
  \<comment> \<open>sequencing: an exception of the first step ends the computation\<close>
  "and_then m f = (case m of Inl e \<Rightarrow> Inl e | Inr x \<Rightarrow> f x)"

definition DataWithErrors_init :: "ndarray \<Rightarrow> error + DataWithErrors" where
  \<comment> \<open>\<^verbatim>\<open>self.n, self.nbins = self._data.shape\<close> fails unless the array has rank 2\<close>
  "DataWithErrors_init d =
     (case shape d of
        [n, b] \<Rightarrow> Inr \<lparr>self_data = d, self_n = n, self_nbins = b, self_cov = zeros3 n b b\<rparr>
      | _ \<Rightarrow> Inl ValueError)"

definition norms :: "DataWithErrors \<Rightarrow> ndarray" where
  "norms dwe = sum_axis1 (self_data dwe)"

definition corr :: "DataWithErrors \<Rightarrow> error + ndarray" where
  "corr dwe = cov2corr (self_cov dwe)"

definition data :: "DataWithErrors \<Rightarrow> bool \<Rightarrow> bool \<Rightarrow> error + ndarray" where
  \<comment> \<open>the flags are the keyword arguments \<^verbatim>\<open>normalize\<close> and \<^verbatim>\<open>decorrelate\<close>\<close>
  "data dwe normalise decorrelate =
     and_then (if normalise then inplace_op fdiv (self_data dwe) (norms dwe)
               else Inr (self_data dwe))
       (\<lambda>ret. if decorrelate
          then and_then (corr dwe) (\<lambda>c.
               and_then (linalg_inv c) (\<lambda>inverses. einsum_kij_kj_ki inverses ret))
          else Inr ret)"

definition normalized :: "DataWithErrors \<Rightarrow> error + ndarray" where
  "normalized dwe = binop fdiv (self_data dwe) (norms dwe)"

definition cov :: "DataWithErrors \<Rightarrow> bool \<Rightarrow> error + ndarray" where
  "cov dwe relative =
     (if \<not> relative then Inr (self_cov dwe)
      else abs2rel_cov (self_cov dwe) (data dwe))"

definition err :: "DataWithErrors \<Rightarrow> bool \<Rightarrow> error + ndarray" where
  "err dwe relative =
     (if \<not> relative then cov2err (self_cov dwe)
      else and_then (cov2err (self_cov dwe))
             (\<lambda>er. binop fdiv er (transpose2 (tile_rows (norms dwe) (self_nbins dwe)))))"

definition add_err_cov :: "DataWithErrors \<Rightarrow> ndarray \<Rightarrow> error option \<times> DataWithErrors" where
  \<comment> \<open>\<^verbatim>\<open>self._cov += cov\<close>\<close>
  "add_err_cov dwe c =
     (case inplace_op fadd (self_cov dwe) c of
        Inl e \<Rightarrow> (Some e, dwe)
      | Inr r \<Rightarrow> (None, dwe\<lparr>self_cov := r\<rparr>))"

definition add_err_corr ::
  "DataWithErrors \<Rightarrow> ndarray \<Rightarrow> ndarray \<Rightarrow> error option \<times> DataWithErrors" where
  "add_err_corr dwe er cr =
     (case corr2cov cr er of
        Inl e \<Rightarrow> (Some e, dwe)
      | Inr c \<Rightarrow> add_err_cov dwe c)"

definition add_err_uncorr :: "DataWithErrors \<Rightarrow> ndarray \<Rightarrow> error option \<times> DataWithErrors" where
  "add_err_uncorr dwe er =
     add_err_corr dwe er (tile_mats (identity (self_nbins dwe)) (self_n dwe))"

definition add_rel_err_cov :: "DataWithErrors \<Rightarrow> ndarray \<Rightarrow> error option \<times> DataWithErrors" where
  "add_rel_err_cov dwe c =
     (case rel2abs_cov c (self_data dwe) of
        Inl e \<Rightarrow> (Some e, dwe)
      | Inr a \<Rightarrow> add_err_cov dwe a)"

definition add_rel_err_corr ::
  "DataWithErrors \<Rightarrow> ndarray \<Rightarrow> ndarray \<Rightarrow> error option \<times> DataWithErrors" where
  "add_rel_err_corr dwe er cr =
     (case corr2cov cr er of
        Inl e \<Rightarrow> (Some e, dwe)
      | Inr c \<Rightarrow> add_rel_err_cov dwe c)"

definition add_rel_err_uncorr :: "DataWithErrors \<Rightarrow> ndarray \<Rightarrow> error option \<times> DataWithErrors" where
  "add_rel_err_uncorr dwe er = add_rel_err_corr dwe er (identity (self_nbins dwe))"

text \<open>
  \<^verbatim>\<open>add_rel_err_maxcorr\<close> takes a Python float or an array: a float is repeated
  \<^verbatim>\<open>nbins\<close> times.
\<close>

datatype err_arg = PyFloat fval | Arr ndarray

definition add_rel_err_maxcorr :: "DataWithErrors \<Rightarrow> err_arg \<Rightarrow> error option \<times> DataWithErrors" where
  "add_rel_err_maxcorr dwe a =
     (let er = (case a of PyFloat x \<Rightarrow> mk1 (self_nbins dwe) (\<lambda>i. x) | Arr e \<Rightarrow> e)
      in add_rel_err_corr dwe er (ones2 (self_nbins dwe) (self_nbins dwe)))"

definition add_poisson_error :: "DataWithErrors \<Rightarrow> error option \<times> DataWithErrors" where
  "add_poisson_error dwe = add_err_uncorr dwe (amap fsqrt (self_data dwe))"


section \<open>The pairwise comparison metric\<close>

definition chi2_metric :: "DataWithErrors \<Rightarrow> error + ndarray" where
  "chi2_metric dwe =
     (let n = norms dwe in
      and_then (data dwe False True) (\<lambda>d.
      and_then (err dwe False) (\<lambda>e.
      and_then (einsum_k_li_kli n d) (\<lambda>nom1.
      let nom2 = transpose_102 nom1 in
      and_then (binop fsub nom1 nom2) (\<lambda>diff.
      let nominator = amap fsquare diff in
      and_then (einsum_k_li_kli n e) (\<lambda>den1.
      let den2 = transpose_102 den1 in
      and_then (binop fadd (amap fsquare den1) (amap fsquare den2)) (\<lambda>denominator.
      and_then (binop fdiv nominator denominator) (\<lambda>summand.
      and_then (einsum_kli_kl summand) (\<lambda>chi2.
      binop fdiv chi2 (scalar (Fin (real (self_nbins dwe)))))))))))))"

definition chi2_formula :: "ndarray \<Rightarrow> ndarray \<Rightarrow> ndarray \<Rightarrow> nat \<Rightarrow> nat \<Rightarrow> nat \<Rightarrow> fval" where
  \<comment> \<open>the entry \<open>(k, l)\<close> as the specification writes it: \<open>1 / b\<close> times the sum over the
      bins \<open>i\<close> of \<open>(N[k] D[l,i] - N[l] D[k,i])\<^sup>2 / ((N[k] E[l,i])\<^sup>2 + (N[l] E[k,i])\<^sup>2)\<close>\<close>
  "chi2_formula N D E b k l =
     fmul (fdiv (Fin 1) (Fin (real b)))
       (fsum (map (\<lambda>i.
          fdiv (fsquare (fsub (fmul (at1 N k) (at2 D l i)) (fmul (at1 N l) (at2 D k i))))
               (fadd (fsquare (fmul (at1 N k) (at2 E l i)))
                     (fsquare (fmul (at1 N l) (at2 E k i)))))
        [0..<b]))"

definition chi2_product :: "ndarray \<Rightarrow> ndarray \<Rightarrow> nat \<Rightarrow> nat \<Rightarrow> fval" where
  \<comment> \<open>the product \<open>N[k] * D[k,i]\<close> that both terms of the numerator of a diagonal entry
      hold\<close>
  "chi2_product N D k i = fmul (at1 N k) (at2 D k i)"

definition chi2_denominator :: "ndarray \<Rightarrow> ndarray \<Rightarrow> nat \<Rightarrow> nat \<Rightarrow> fval" where
  \<comment> \<open>the denominator \<open>(N[k] * E[k,i])\<^sup>2 + (N[k] * E[k,i])\<^sup>2\<close> of a diagonal entry\<close>
  "chi2_denominator N E k i =
     fadd (fsquare (fmul (at1 N k) (at2 E k i))) (fsquare (fmul (at1 N k) (at2 E k i)))"

definition dwe_ok :: "DataWithErrors \<Rightarrow> bool" where
  \<comment> \<open>the shapes that the constructor sets up and every method keeps\<close>
  "dwe_ok dwe =
     (shape (self_data dwe) = [self_n dwe, self_nbins dwe] \<and> wf_array (self_data dwe) \<and>
      shape (self_cov dwe) = [self_n dwe, self_nbins dwe, self_nbins dwe] \<and>
      wf_array (self_cov dwe))"

definition triu_indices :: "nat \<Rightarrow> nat \<Rightarrow> (nat \<times> nat) list" where
  \<comment> \<open>\<^verbatim>\<open>np.triu_indices(n, k)\<close>: the positions \<open>(i, j)\<close> of an \<open>n \<times> n\<close> mask with
      \<open>j \<ge> i + k\<close>, read row by row\<close>
  "triu_indices n k = filter (\<lambda>(i, j). i + k \<le> j) (List.product [0..<n] [0..<n])"

definition condense_distance_matrix :: "ndarray \<Rightarrow> error + ndarray" where
  \<comment> \<open>\<^verbatim>\<open>matrix[np.triu_indices(len(matrix), k=1)]\<close>: \<^verbatim>\<open>len\<close> of a rank-0 array raises
      TypeError; two index arrays into a rank-1 array, or a column index beyond the
      second axis, raise IndexError; for each index pair the result holds the entry (or,
      above rank 2, the block) at that position\<close>
  "condense_distance_matrix m =
     (case shape m of
        [] \<Rightarrow> Inl TypeError
      | [d] \<Rightarrow> Inl IndexError
      | r # c # rest \<Rightarrow>
          let pairs = triu_indices r 1; blk = prod_list rest in
          if list_ex (\<lambda>(i, j). c \<le> j) pairs then Inl IndexError
          else Inr \<lparr>shape = length pairs # rest,
                    flat = concat (map (\<lambda>(i, j). take blk (drop ((i * c + j) * blk) (flat m)))
                                     pairs)\<rparr>)"

definition upper_entries :: "ndarray \<Rightarrow> nat \<Rightarrow> fval list" where
  \<comment> \<open>the entries strictly above the diagonal of an \<open>n \<times> n\<close> matrix, row after row,
      each row from left to right\<close>
  "upper_entries m n = concat (map (\<lambda>i. map (\<lambda>j. at2 m i j) [Suc i..<n]) [0..<n])"


section \<open>Arrays as objects: references and aliasing\<close>

text \<open>
  Whether a returned array shares its memory with the dataset is not visible in the
  values above. Here every array lives in a heap, at an address; the object holds the
  addresses of \<^verbatim>\<open>_data\<close> and \<^verbatim>\<open>_cov\<close>, and an accessor returns an address. An
  accessor that computes a new array (\<^verbatim>\<open>np.array(self._data)\<close>, a quotient, an einsum, a
  square root) allocates it at a fresh address; \<^verbatim>\<open>return self._cov\<close> returns the address
  that the object holds. A caller who mutates an array writes at its address.
\<close>

type_synonym heap = "ndarray list"

record DataWithErrors_obj =
  ref_data :: nat
  obj_n :: nat
  obj_nbins :: nat
  ref_cov :: nat




definition heap_init :: "heap \<Rightarrow> nat \<Rightarrow> heap \<times> (error + DataWithErrors_obj)" where
  \<comment> \<open>\<^verbatim>\<open>self._data = data\<close> keeps the caller's array; \<^verbatim>\<open>np.zeros\<close> allocates\<close>
  "heap_init h rd =
     (case shape (h ! rd) of
        [n, b] \<Rightarrow> (h @ [zeros3 n b b],
                   Inr \<lparr>ref_data = rd, obj_n = n, obj_nbins = b, ref_cov = length h\<rparr>)
      | _ \<Rightarrow> (h, Inl ValueError))"










section \<open>Example inputs\<close>

definition dwe_2x2 :: DataWithErrors where
  \<comment> \<open>\<^verbatim>\<open>DataWithErrors(np.array([[1., 2.], [3., 4.]]))\<close>\<close>
  "dwe_2x2 = \<lparr>self_data = \<lparr>shape = [2, 2], flat = [Fin 1, Fin 2, Fin 3, Fin 4]\<rparr>,
     self_n = 2, self_nbins = 2, self_cov = zeros3 2 2 2\<rparr>"

definition dwe_2x3 :: DataWithErrors where
  \<comment> \<open>\<^verbatim>\<open>DataWithErrors(np.array([[1., 2., 3.], [4., 5., 6.]]))\<close>\<close>
  "dwe_2x3 = \<lparr>self_data = \<lparr>shape = [2, 3],
       flat = [Fin 1, Fin 2, Fin 3, Fin 4, Fin 5, Fin 6]\<rparr>,
     self_n = 2, self_nbins = 3, self_cov = zeros3 2 3 3\<rparr>"

definition cov_2x2 :: ndarray where
  \<comment> \<open>\<^verbatim>\<open>np.array([[4., 1.], [1., 9.]])\<close>\<close>
  "cov_2x2 = \<lparr>shape = [2, 2], flat = [Fin 4, Fin 1, Fin 1, Fin 9]\<rparr>"

definition mat_3x3 :: ndarray where
  \<comment> \<open>\<^verbatim>\<open>np.array([[1., 2., 3.], [4., 5., 6.], [7., 8., 9.]])\<close>\<close>
  "mat_3x3 = \<lparr>shape = [3, 3],
     flat = [Fin 1, Fin 2, Fin 3, Fin 4, Fin 5, Fin 6, Fin 7, Fin 8, Fin 9]\<rparr>"

definition err_a :: ndarray where
  \<comment> \<open>\<^verbatim>\<open>np.array([[3., 1.], [1., 2.]])\<close>\<close>
  "err_a = \<lparr>shape = [2, 2], flat = [Fin 3, Fin 1, Fin 1, Fin 2]\<rparr>"


definition dwe_err :: DataWithErrors where
  \<comment> \<open>the dataset of \<^verbatim>\<open>[[1., 3.], [2., 2.]]\<close> after
      \<^verbatim>\<open>add_err_uncorr(np.array([[1., 1.], [2., 2.]]))\<close>\<close>
  "dwe_err = \<lparr>self_data = \<lparr>shape = [2, 2], flat = [Fin 1, Fin 3, Fin 2, Fin 2]\<rparr>,
     self_n = 2, self_nbins = 2,
     self_cov = \<lparr>shape = [2, 2, 2],
       flat = [Fin 1, Fin 0, Fin 0, Fin 1, Fin 4, Fin 0, Fin 0, Fin 4]\<rparr>\<rparr>"

definition dwe_zero :: DataWithErrors where
  \<comment> \<open>the dataset of the single empty histogram \<^verbatim>\<open>[[0.]]\<close> after
      \<^verbatim>\<open>add_err_uncorr(np.array([[1.]]))\<close>\<close>
  "dwe_zero = \<lparr>self_data = \<lparr>shape = [1, 1], flat = [Fin 0]\<rparr>,
     self_n = 1, self_nbins = 1,
     self_cov = \<lparr>shape = [1, 1, 1], flat = [Fin 1]\<rparr>\<rparr>"

definition heap_2x2 :: heap where
  \<comment> \<open>the heap after \<^verbatim>\<open>DataWithErrors(np.array([[1., 2.], [3., 4.]]))\<close>: the data at
      address 0, the zero covariance at address 1\<close>
  "heap_2x2 = [\<lparr>shape = [2, 2], flat = [Fin 1, Fin 2, Fin 3, Fin 4]\<rparr>, zeros3 2 2 2]"

definition obj_2x2 :: DataWithErrors_obj where
  "obj_2x2 = \<lparr>ref_data = 0, obj_n = 2, obj_nbins = 2, ref_cov = 1\<rparr>"


section \<open>Reading tabulated arrays\<close>

lemma at1_mk1: "i < n \<Longrightarrow> at1 (mk1 n f) i = f i"
  by (simp add: at1_def mk1_def)

lemma at2_mk2: "i < r \<Longrightarrow> j < c \<Longrightarrow> at2 (mk2 r c f) i j = f i j"
proof -
  assume i: "i < r" and j: "j < c"
  have lt: "i * c + j < r * c"
  proof -
    have "i * c + j < i * c + c" using j by simp
    also have "\<dots> = Suc i * c" by simp
    also have "\<dots> \<le> r * c" using i by (intro mult_le_mono1) simp
    finally show ?thesis .
  qed
  show ?thesis using i j lt
    by (simp add: at2_def mk2_def product_nth)
qed

lemma idx3_lt: "k < n \<Longrightarrow> i < r \<Longrightarrow> j < (c::nat) \<Longrightarrow> k * (r * c) + (i * c + j) < n * (r * c)"
proof -
  assume k: "k < n" and i: "i < r" and j: "j < c"
  have "i * c + j < i * c + c" using j by simp
  also have "\<dots> = Suc i * c" by simp
  also have "\<dots> \<le> r * c" using i by (intro mult_le_mono1) simp
  finally have a: "i * c + j < r * c" .
  then have "k * (r * c) + (i * c + j) < Suc k * (r * c)" by simp
  also have "\<dots> \<le> n * (r * c)" using k by (intro mult_le_mono1) simp
  finally show ?thesis .
qed

lemma at3_mk3: "k < n \<Longrightarrow> i < r \<Longrightarrow> j < c \<Longrightarrow> at3 (mk3 n r c f) k i j = f k i j"
proof -
  assume k: "k < n" and i: "i < r" and j: "j < c"
  have a: "i * c + j < r * c" using idx3_lt[of 0 1 i r j c] i j by simp
  have b: "k * (r * c) + (i * c + j) < n * (r * c)" using idx3_lt[OF k i j] .
  show ?thesis using k i j a b
    by (simp add: at3_def mk3_def product_nth)
qed

lemma mk1_cong: "(\<And>i. i < n \<Longrightarrow> f i = g i) \<Longrightarrow> mk1 n f = mk1 n g"
  by (simp add: mk1_def)

lemma mk2_cong: "(\<And>i j. i < r \<Longrightarrow> j < c \<Longrightarrow> f i j = g i j) \<Longrightarrow> mk2 r c f = mk2 r c g"
  by (auto simp: mk2_def)

lemma mk3_cong: "(\<And>k i j. k < n \<Longrightarrow> i < r \<Longrightarrow> j < c \<Longrightarrow> f k i j = g k i j) \<Longrightarrow> mk3 n r c f = mk3 n r c g"
  by (auto simp: mk3_def)

lemma mk2_at2: "shape a = [r, c] \<Longrightarrow> wf_array a \<Longrightarrow> mk2 r c (at2 a) = a"
proof -
  assume s: "shape a = [r, c]" and w: "wf_array a"
  have len: "length (flat a) = r * c" using s w by (simp add: wf_array_def)
  have "map (\<lambda>(i, j). at2 a i j) (List.product [0..<r] [0..<c]) = flat a"
  proof (rule nth_equalityI)
    show "length (map (\<lambda>(i, j). at2 a i j) (List.product [0..<r] [0..<c])) = length (flat a)"
      using len by simp
  next
    fix m assume "m < length (map (\<lambda>(i, j). at2 a i j) (List.product [0..<r] [0..<c]))"
    then have m: "m < r * c" by simp
    then have c0: "0 < c" by (cases c) auto
    have d: "m div c < r" using m c0 by (simp add: less_mult_imp_div_less)
    have e: "m mod c < c" using c0 by simp
    show "map (\<lambda>(i, j). at2 a i j) (List.product [0..<r] [0..<c]) ! m = flat a ! m"
      using m d e by (simp add: product_nth at2_def s)
  qed
  then show ?thesis using s by (simp add: mk2_def)
qed

lemma mk3_at3: "shape a = [n, r, c] \<Longrightarrow> wf_array a \<Longrightarrow> mk3 n r c (at3 a) = a"
proof -
  assume s: "shape a = [n, r, c]" and w: "wf_array a"
  have len: "length (flat a) = n * (r * c)" using s w by (simp add: wf_array_def)
  let ?L = "map (\<lambda>(k, i, j). at3 a k i j) (List.product [0..<n] (List.product [0..<r] [0..<c]))"
  have "?L = flat a"
  proof (rule nth_equalityI)
    show "length ?L = length (flat a)" using len by simp
  next
    fix m assume "m < length ?L"
    then have m: "m < n * (r * c)" by simp
    then have rc0: "0 < r * c" by (cases "r * c") auto
    then have c0: "0 < c" by (cases c) auto
    have d: "m div (r * c) < n" using m rc0 by (simp add: less_mult_imp_div_less)
    have e: "m mod (r * c) < r * c" using rc0 by simp
    have f: "m mod (r * c) div c < r" using e c0 by (simp add: less_mult_imp_div_less)
    have g: "m mod (r * c) mod c < c" using c0 by simp
    have h: "m div (r * c) * (r * c) + m mod (r * c) = m" by (rule div_mult_mod_eq)
    show "?L ! m = flat a ! m"
      using m d e f g by (simp add: product_nth at3_def s h)
  qed
  then show ?thesis using s by (simp add: mk3_def)
qed

lemma wf_mk1: "wf_array (mk1 n f)" by (simp add: wf_array_def mk1_def)
lemma wf_mk2: "wf_array (mk2 r c f)" by (simp add: wf_array_def mk2_def)
lemma wf_mk3: "wf_array (mk3 n r c f)" by (simp add: wf_array_def mk3_def)

lemma shape_mk1: "shape (mk1 n f) = [n]" by (simp add: mk1_def)
lemma shape_mk2: "shape (mk2 r c f) = [r, c]" by (simp add: mk2_def)
lemma shape_mk3: "shape (mk3 n r c f) = [n, r, c]" by (simp add: mk3_def)

lemma amap_mk1: "amap g (mk1 n f) = mk1 n (\<lambda>i. g (f i))"
  by (simp add: amap_def mk1_def)
lemma amap_mk2: "amap g (mk2 r c f) = mk2 r c (\<lambda>i j. g (f i j))"
  by (auto simp: amap_def mk2_def)
lemma amap_mk3: "amap g (mk3 n r c f) = mk3 n r c (\<lambda>k i j. g (f k i j))"
  by (auto simp: amap_def mk3_def)


section \<open>Operators on arrays of equal shape\<close>

lemma bidx_lt: "i < d \<Longrightarrow> bidx d i = i"
  by (auto simp: bidx_def)

lemma bdims_same2: "bdims [d, d] = Some d"
  by (simp add: bdims_def)

lemma bdims_same3: "bdims [d, d, d] = Some d"
  by (simp add: bdims_def)

lemma bdims_one_l: "bdims [1, d] = Some d"
  by (simp add: bdims_def)

lemma binop_same2:
  assumes "shape a = [r, c]" "shape b = [r, c]"
  shows "binop f a b = Inr (mk2 r c (\<lambda>i j. f (at2 a i j) (at2 b i j)))"
proof -
  have "map (\<lambda>(k, i, j). f (get3 a k i j) (get3 b k i j))
          (List.product [0..<1] (List.product [0..<r] [0..<c]))
      = map (\<lambda>(i, j). f (at2 a i j) (at2 b i j)) (List.product [0..<r] [0..<c])"
    using assms by (auto simp: get3_def pad3_def at2_def bidx_lt comp_def)
  then show ?thesis using assms
    by (simp add: binop_def pad3_def bdims_same2 mk3_def mk2_def)
qed

lemma binop_same3:
  assumes "shape a = [n, r, c]" "shape b = [n, r, c]"
  shows "binop f a b = Inr (mk3 n r c (\<lambda>k i j. f (at3 a k i j) (at3 b k i j)))"
proof -
  have "map (\<lambda>(k, i, j). f (get3 a k i j) (get3 b k i j))
          (List.product [0..<n] (List.product [0..<r] [0..<c]))
      = map (\<lambda>(k, i, j). f (at3 a k i j) (at3 b k i j))
          (List.product [0..<n] (List.product [0..<r] [0..<c]))"
    using assms by (auto simp: get3_def pad3_def at3_def bidx_lt)
  then show ?thesis using assms
    by (simp add: binop_def pad3_def bdims_same2 mk3_def)
qed

lemma roundtrip_entry:
  assumes "0 < x" "0 < y"
  shows "fmul (fmul (fdiv v (fmul (fsqrt (Fin x)) (fsqrt (Fin y)))) (fsqrt (Fin x))) (fsqrt (Fin y)) = v"
proof -
  have p: "0 < sqrt x * sqrt y" using assms by simp
  then have q: "\<not> sqrt x * sqrt y < 0" by simp
  show ?thesis using assms p q by (cases v) (auto simp: inf_of_sign_def)
qed

lemma cov2err_sq:
  assumes "shape C = [b, b]"
  shows "cov2err C = Inr (mk1 b (\<lambda>i. fsqrt (at2 C i i)))"
  using assms by (simp add: cov2err_def diagonal2_def amap_mk1)

lemma cov2corr_sq:
  assumes "shape C = [b, b]"
  shows "cov2corr C = Inr (mk2 b b (\<lambda>i j. fdiv (at2 C i j) (fmul (fsqrt (at2 C i i)) (fsqrt (at2 C j j)))))"
proof -
  let ?E = "mk1 b (\<lambda>i. fsqrt (at2 C i i))"
  have o: "outer ?E ?E = mk2 b b (\<lambda>i j. fmul (fsqrt (at2 C i i)) (fsqrt (at2 C j j)))"
    by (auto simp: outer_def mk1_def intro!: mk2_cong)
  have "binop fdiv C (outer ?E ?E) = Inr (mk2 b b (\<lambda>i j. fdiv (at2 C i j) (at2 (outer ?E ?E) i j)))"
    using assms by (intro binop_same2) (simp_all add: o shape_mk2)
  also have "mk2 b b (\<lambda>i j. fdiv (at2 C i j) (at2 (outer ?E ?E) i j))
     = mk2 b b (\<lambda>i j. fdiv (at2 C i j) (fmul (fsqrt (at2 C i i)) (fsqrt (at2 C j j))))"
    by (rule mk2_cong) (simp add: o at2_mk2)
  finally show ?thesis using assms by (simp add: cov2corr_def cov2err_sq)
qed


section \<open>The round trip through correlation and error\<close>

text \<open>
  C6. For every \<open>b \<times> b\<close> covariance matrix whose diagonal entries are finite and strictly
  positive, \<^verbatim>\<open>corr2cov(cov2corr(C), cov2err(C))\<close> returns \<open>C\<close> again, exactly (the
  model computes in real arithmetic). The entries off the diagonal are arbitrary.
\<close>

theorem corr2cov_cov2corr_roundtrip:
  assumes "shape C = [b, b]" "wf_array C"
    and "\<forall>i<b. is_fin (at2 C i i) \<and> 0 < the_fin (at2 C i i)"
  shows "cov_roundtrip C = Inr C"
proof -
  let ?E = "mk1 b (\<lambda>i. fsqrt (at2 C i i))"
  let ?R = "mk2 b b (\<lambda>i j. fdiv (at2 C i j) (fmul (fsqrt (at2 C i i)) (fsqrt (at2 C j j))))"
  have pos: "\<And>i. i < b \<Longrightarrow> \<exists>x. 0 < x \<and> at2 C i i = Fin x"
  proof -
    fix i assume "i < b"
    then have "is_fin (at2 C i i) \<and> 0 < the_fin (at2 C i i)" using assms(3) by blast
    then show "\<exists>x. 0 < x \<and> at2 C i i = Fin x" by (cases "at2 C i i") auto
  qed
  have "corr2cov ?R ?E = Inr (mk2 b b (\<lambda>i j. fmul (fmul (bat2 ?R i j) (bat1 ?E i)) (bat1 ?E j)))"
    by (simp add: corr2cov_def einsum_ij_i_j_ij_def shape_mk2 shape_mk1 bdims_same2)
  also have "mk2 b b (\<lambda>i j. fmul (fmul (bat2 ?R i j) (bat1 ?E i)) (bat1 ?E j)) = mk2 b b (at2 C)"
  proof (rule mk2_cong)
    fix i j assume i: "i < b" and j: "j < b"
    obtain x where x: "0 < x" "at2 C i i = Fin x" using pos[OF i] by blast
    obtain y where y: "0 < y" "at2 C j j = Fin y" using pos[OF j] by blast
    show "fmul (fmul (bat2 ?R i j) (bat1 ?E i)) (bat1 ?E j) = at2 C i j"
      using i j roundtrip_entry[OF x(1) y(1), of "at2 C i j"]
      by (simp add: bat2_def bat1_def shape_mk2 shape_mk1 bidx_lt at2_mk2 at1_mk1 x(2) y(2))
  qed
  also have "mk2 b b (at2 C) = C" using assms by (intro mk2_at2)
  finally show ?thesis using assms(1) by (simp add: cov_roundtrip_def cov2corr_sq cov2err_sq)
qed

theorem corr2cov_cov2corr_roundtrip_witness:
  "at2 cov_2x2 0 0 = Fin 4 \<and> at2 cov_2x2 1 1 = Fin 9 \<and> cov_roundtrip cov_2x2 = Inr cov_2x2"
proof -
  have s: "shape cov_2x2 = [2, 2]" by (simp add: cov_2x2_def)
  have w: "wf_array cov_2x2" by (simp add: cov_2x2_def wf_array_def)
  have d: "at2 cov_2x2 0 0 = Fin 4 \<and> at2 cov_2x2 1 1 = Fin 9" by (simp add: cov_2x2_def at2_def)
  have p: "\<forall>i<2. is_fin (at2 cov_2x2 i i) \<and> 0 < the_fin (at2 cov_2x2 i i)"
    using d by (auto simp: less_2_cases_iff)
  show ?thesis using corr2cov_cov2corr_roundtrip[OF s w p] d by simp
qed


section \<open>The relative covariance\<close>

lemma init_2x2:
  "DataWithErrors_init \<lparr>shape = [2, 2], flat = [Fin 1, Fin 2, Fin 3, Fin 4]\<rparr> = Inr dwe_2x2"
  by (simp add: DataWithErrors_init_def dwe_2x2_def)

theorem cov_relative_2x2: "cov dwe_2x2 True = Inl NotImplementedError"
  by (simp add: cov_def abs2rel_cov_def)

text \<open>
  C4 (as amended). \<^verbatim>\<open>cov(relative=True)\<close> returns no array: the converter
  \<^verbatim>\<open>abs2rel_cov\<close> raises NotImplementedError, for every dataset. With
  \<^verbatim>\<open>relative=False\<close> the call returns the stored absolute covariance.
\<close>

theorem cov_relative_not_implemented:
  "cov dwe True = Inl NotImplementedError \<and> cov dwe False = Inr (self_cov dwe)"
  by (simp add: cov_def abs2rel_cov_def)


section \<open>Normalised data\<close>

lemma upt_small: "[0..<1] = [0]" "[0..<2] = [0, 1]" "[0..<3] = [0, 1, 2]"
  by (simp_all add: upt_conv_Cons)

lemma norms_2x2: "norms dwe_2x2 = \<lparr>shape = [2], flat = [Fin 3, Fin 7]\<rparr>"
  by (simp add: norms_def sum_axis1_def dwe_2x2_def mk1_def at2_def fsum_def upt_small)

lemma data_normalize_2x3_raises: "data dwe_2x3 True False = Inl ValueError"
  by (simp add: data_def and_then_def inplace_op_def binop_def norms_def sum_axis1_def
        dwe_2x3_def mk1_def pad3_def bdims_def numeral_3_eq_3 Let_def)

text \<open>
  C3 (the code at the failing input). For the data \<open>[[1, 2], [3, 4]]\<close> the norms are
  \<open>[3, 7]\<close>, and \<^verbatim>\<open>data(normalize=True)\<close> returns \<open>[[1/3, 2/7], [1, 4/7]]\<close>: the
  in-place division \<^verbatim>\<open>ret /= self.norms()\<close> broadcasts the norms along the bins, so
  entry \<open>(k, i)\<close> is divided by the norm of histogram \<open>i\<close>. Dividing entry \<open>(0, 1)\<close>
  by the norm of its own histogram would give \<open>2/3\<close>.
\<close>

theorem data_normalize_2x2:
  "data dwe_2x2 True False
     = Inr \<lparr>shape = [2, 2], flat = [Fin (1 / 3), Fin (2 / 7), Fin 1, Fin (4 / 7)]\<rparr>
   \<and> fdiv (at2 (self_data dwe_2x2) 0 1) (at1 (norms dwe_2x2) 0) = Fin (2 / 3)"
proof -
  have a: "data dwe_2x2 True False
     = Inr \<lparr>shape = [2, 2], flat = [Fin (1 / 3), Fin (2 / 7), Fin 1, Fin (4 / 7)]\<rparr>"
    unfolding data_def and_then_def inplace_op_def binop_def norms_2x2
    by (simp add: dwe_2x2_def pad3_def bdims_def mk3_def get3_def bidx_def numeral_3_eq_3 upt_small)
  have b: "fdiv (at2 (self_data dwe_2x2) 0 1) (at1 (norms dwe_2x2) 0) = Fin (2 / 3)"
    unfolding norms_2x2 by (simp add: dwe_2x2_def at2_def at1_def)
  show ?thesis using a b by simp
qed


section \<open>A freshly constructed dataset\<close>

lemma init_shape:
  assumes "DataWithErrors_init d = Inr dwe"
  shows "shape d = [self_n dwe, self_nbins dwe] \<and> self_data dwe = d
         \<and> self_cov dwe = zeros3 (self_n dwe) (self_nbins dwe) (self_nbins dwe)"
  using assms
  by (auto simp: DataWithErrors_init_def split: list.splits)

lemma cov2err_rank3:
  assumes "shape c = [n, b, b]"
  shows "cov2err c = Inr (mk2 n b (\<lambda>k i. fsqrt (at3 c k i i)))"
  using assms by (simp add: cov2err_def diagonal3_def amap_mk2)

lemma einsum_ki_kj_kij_same:
  assumes "shape e = [n, b]"
  shows "einsum_ki_kj_kij e e = Inr (mk3 n b b (\<lambda>k i j. fmul (at2 e k i) (at2 e k j)))"
proof -
  have "mk3 n b b (\<lambda>k i j. fmul (bat2 e k i) (bat2 e k j))
      = mk3 n b b (\<lambda>k i j. fmul (at2 e k i) (at2 e k j))"
    using assms by (intro mk3_cong) (simp add: bat2_def bidx_lt)
  then show ?thesis using assms by (simp add: einsum_ki_kj_kij_def bdims_same2)
qed

lemma cov2corr_rank3:
  assumes "shape c = [n, b, b]"
  shows "cov2corr c = Inr (mk3 n b b (\<lambda>k i j.
           fdiv (at3 c k i j) (fmul (fsqrt (at3 c k i i)) (fsqrt (at3 c k j j)))))"
proof -
  let ?E = "mk2 n b (\<lambda>k i. fsqrt (at3 c k i i))"
  let ?D = "mk3 n b b (\<lambda>k i j. fmul (at2 ?E k i) (at2 ?E k j))"
  have e: "einsum_ki_kj_kij ?E ?E = Inr ?D"
    by (rule einsum_ki_kj_kij_same) (simp add: shape_mk2)
  have "binop fdiv c ?D = Inr (mk3 n b b (\<lambda>k i j. fdiv (at3 c k i j) (at3 ?D k i j)))"
    using assms by (intro binop_same3) (simp_all add: shape_mk3)
  also have "mk3 n b b (\<lambda>k i j. fdiv (at3 c k i j) (at3 ?D k i j))
     = mk3 n b b (\<lambda>k i j. fdiv (at3 c k i j) (fmul (fsqrt (at3 c k i i)) (fsqrt (at3 c k j j))))"
    by (rule mk3_cong) (simp add: at3_mk3 at2_mk2)
  finally show ?thesis using assms e by (simp add: cov2corr_def cov2err_rank3)
qed

text \<open>
  C8. For every freshly constructed dataset, \<^verbatim>\<open>err()\<close> returns the \<open>n \<times> b\<close> array of
  zeros and \<^verbatim>\<open>corr()\<close> returns the \<open>n \<times> b \<times> b\<close> array whose entries are all \<open>nan\<close>
  (each is \<open>0 / 0\<close>); both calls return, neither raises.
\<close>

theorem fresh_err_corr:
  assumes "DataWithErrors_init d = Inr dwe"
  shows "err dwe False = Inr (mk2 (self_n dwe) (self_nbins dwe) (\<lambda>k i. Fin 0))
       \<and> corr dwe = Inr (mk3 (self_n dwe) (self_nbins dwe) (self_nbins dwe) (\<lambda>k i j. NaN))"
proof -
  let ?n = "self_n dwe" and ?b = "self_nbins dwe"
  have c: "self_cov dwe = zeros3 ?n ?b ?b" using init_shape[OF assms] by simp
  have s: "shape (self_cov dwe) = [?n, ?b, ?b]" by (simp add: c zeros3_def shape_mk3)
  have z: "\<And>k i j. k < ?n \<Longrightarrow> i < ?b \<Longrightarrow> j < ?b \<Longrightarrow> at3 (self_cov dwe) k i j = Fin 0"
    by (simp add: c zeros3_def at3_mk3)
  have "mk2 ?n ?b (\<lambda>k i. fsqrt (at3 (self_cov dwe) k i i)) = mk2 ?n ?b (\<lambda>k i. Fin 0)"
    by (rule mk2_cong) (simp add: z)
  then have e: "err dwe False = Inr (mk2 ?n ?b (\<lambda>k i. Fin 0))"
    by (simp add: err_def cov2err_rank3[OF s])
  have "mk3 ?n ?b ?b (\<lambda>k i j. fdiv (at3 (self_cov dwe) k i j)
            (fmul (fsqrt (at3 (self_cov dwe) k i i)) (fsqrt (at3 (self_cov dwe) k j j))))
      = mk3 ?n ?b ?b (\<lambda>k i j. NaN)"
    by (rule mk3_cong) (simp add: z inf_of_sign_def)
  then have r: "corr dwe = Inr (mk3 ?n ?b ?b (\<lambda>k i j. NaN))"
    by (simp add: corr_def cov2corr_rank3[OF s])
  show ?thesis using e r by simp
qed

theorem fresh_err_corr_witness:
  "err dwe_2x2 False = Inr \<lparr>shape = [2, 2], flat = [Fin 0, Fin 0, Fin 0, Fin 0]\<rparr>
   \<and> corr dwe_2x2 = Inr \<lparr>shape = [2, 2, 2], flat = [NaN, NaN, NaN, NaN, NaN, NaN, NaN, NaN]\<rparr>"
  using fresh_err_corr[OF init_2x2]
  by (simp add: dwe_2x2_def mk2_def mk3_def upt_small)


section \<open>The condensed distance matrix\<close>

lemma filter_product:
  "filter P (List.product xs ys) = concat (map (\<lambda>x. map (Pair x) (filter (\<lambda>y. P (x, y)) ys)) xs)"
  by (induction xs) (simp_all add: filter_map comp_def)

lemma filter_above: "i < n \<Longrightarrow> filter (\<lambda>j. Suc i \<le> j) [0..<n] = [Suc i..<n]"
proof -
  assume i: "i < n"
  have sp: "[0..<n] = [0..<Suc i] @ [Suc i..<n]"
    using i upt_add_eq_append[of 0 "Suc i" "n - Suc i"] by simp
  have a: "filter (\<lambda>j. Suc i \<le> j) [0..<Suc i] = []"
    by (simp only: filter_empty_conv) auto
  have b: "filter (\<lambda>j. Suc i \<le> j) [Suc i..<n] = [Suc i..<n]"
    by (simp only: filter_id_conv) auto
  show ?thesis by (subst sp) (simp only: filter_append a b append_Nil)
qed

lemma triu_indices_rows:
  "triu_indices n (Suc 0) = concat (map (\<lambda>i. map (Pair i) [Suc i..<n]) [0..<n])"
proof -
  have "concat (map (\<lambda>i. map (Pair i) (filter (\<lambda>j. i + 1 \<le> j) [0..<n])) [0..<n])
      = concat (map (\<lambda>i. map (Pair i) [Suc i..<n]) [0..<n])"
    by (rule arg_cong[where f = concat], rule map_cong) (simp_all add: filter_above)
  then show ?thesis by (simp add: triu_indices_def filter_product)
qed

lemma length_triu_indices: "length (triu_indices n (Suc 0)) = n * (n - 1) div 2"
proof -
  have "length (triu_indices n (Suc 0)) = sum_list (map (\<lambda>i. n - Suc i) [0..<n])"
    by (simp add: triu_indices_rows length_concat comp_def)
  also have "\<dots> = (\<Sum>i<n. n - Suc i)"
    by (simp add: interv_sum_list_conv_sum_set_nat lessThan_atLeast0)
  also have "\<dots> = (\<Sum>i<n. i)"
    by (rule sum.nat_diff_reindex)
  also have "\<dots> = n * (n - 1) div 2"
    using Sum_Ico_nat[of 0 n] by (simp add: lessThan_atLeast0)
  finally show ?thesis .
qed

lemma triu_indices_bounds: "(i, j) \<in> set (triu_indices n (Suc 0)) \<Longrightarrow> i < j \<and> j < n"
  by (auto simp: triu_indices_def)

lemma take_one_drop: "k < length xs \<Longrightarrow> take (Suc 0) (drop k xs) = [xs ! k]"
  by (simp add: Cons_nth_drop_Suc[symmetric])

text \<open>
  C9. For every \<open>n \<times> n\<close> matrix, \<^verbatim>\<open>condense_distance_matrix\<close> returns a flat vector of
  exactly \<open>n * (n - 1) / 2\<close> entries: the entries strictly above the diagonal, row after
  row.
\<close>

theorem condense_upper_triangle:
  assumes "shape m = [n, n]" "wf_array m"
  shows "condense_distance_matrix m
           = Inr \<lparr>shape = [n * (n - 1) div 2], flat = upper_entries m n\<rparr>
       \<and> length (upper_entries m n) = n * (n - 1) div 2"
proof -
  have len: "length (flat m) = n * n" using assms by (simp add: wf_array_def)
  have inb: "\<not> list_ex (\<lambda>(i, j). n \<le> j) (triu_indices n (Suc 0))"
    by (auto simp: list_ex_iff dest: triu_indices_bounds)
  have ent: "map (\<lambda>(i, j). take (Suc 0) (drop (i * n + j) (flat m))) (triu_indices n (Suc 0))
           = map (\<lambda>(i, j). [at2 m i j]) (triu_indices n (Suc 0))"
  proof (rule map_cong[OF refl])
    fix p assume p: "p \<in> set (triu_indices n (Suc 0))"
    obtain i j where ij: "p = (i, j)" by (cases p)
    have b: "i < j \<and> j < n" using p ij triu_indices_bounds by blast
    then have "i * n + j < Suc i * n" by simp
    also have "\<dots> \<le> n * n" using b by (intro mult_le_mono1) simp
    finally have "i * n + j < length (flat m)" using len by simp
    then show "(case p of (i, j) \<Rightarrow> take (Suc 0) (drop (i * n + j) (flat m)))
             = (case p of (i, j) \<Rightarrow> [at2 m i j])"
      using ij assms(1) by (simp add: take_one_drop at2_def)
  qed
  have "concat (map (\<lambda>(i, j). [at2 m i j]) (triu_indices n (Suc 0)))
      = map (\<lambda>(i, j). at2 m i j) (triu_indices n (Suc 0))"
    by (induction "triu_indices n (Suc 0)") (auto simp: split_def)
  also have "\<dots> = upper_entries m n"
    by (simp add: triu_indices_rows upper_entries_def map_concat comp_def)
  finally have up: "concat (map (\<lambda>(i, j). [at2 m i j]) (triu_indices n (Suc 0))) = upper_entries m n" .
  have lu: "length (upper_entries m n) = n * (n - 1) div 2"
    using length_triu_indices[of n] up[symmetric] by (simp add: length_concat comp_def split_def)
  have fl: "concat (map (\<lambda>(i, j). take (Suc 0) (drop (i * n + j) (flat m)))
               (triu_indices n (Suc 0))) = upper_entries m n"
    by (simp only: ent up)
  show ?thesis using assms(1) inb lu
    by (simp add: condense_distance_matrix_def length_triu_indices fl)
qed


theorem condense_upper_triangle_witness:
  "condense_distance_matrix mat_3x3 = Inr \<lparr>shape = [3], flat = [Fin 2, Fin 3, Fin 6]\<rparr>"
proof -
  have s: "shape mat_3x3 = [3, 3]" by (simp add: mat_3x3_def)
  have w: "wf_array mat_3x3" by (simp add: mat_3x3_def wf_array_def)
  have u: "upper_entries mat_3x3 3 = [Fin 2, Fin 3, Fin 6]"
    by (simp add: upper_entries_def mat_3x3_def at2_def upt_conv_Cons)
  show ?thesis using condense_upper_triangle[OF s w] u by simp
qed


section \<open>Uncorrelated errors add in quadrature\<close>


lemma shape_amap: "shape (amap f a) = shape a"
  by (simp add: amap_def)

lemma einsum_kij_ki_kj_kij_same:
  assumes "shape a = [n, b, b]" "shape e = [n, b]"
  shows "einsum_kij_ki_kj_kij a e e
       = Inr (mk3 n b b (\<lambda>k i j. fmul (fmul (at3 a k i j) (at2 e k i)) (at2 e k j)))"
proof -
  have "mk3 n b b (\<lambda>k i j. fmul (fmul (bat3 a k i j) (bat2 e k i)) (bat2 e k j))
      = mk3 n b b (\<lambda>k i j. fmul (fmul (at3 a k i j) (at2 e k i)) (at2 e k j))"
    using assms by (intro mk3_cong) (simp add: bat3_def bat2_def bidx_lt)
  then show ?thesis using assms
    by (simp add: einsum_kij_ki_kj_kij_def bdims_same2 bdims_same3)
qed

lemma add_err_cov_same:
  assumes "shape (self_cov dwe) = [n, b, b]" "shape c = [n, b, b]"
  shows "add_err_cov dwe c
       = (None, dwe\<lparr>self_cov := mk3 n b b (\<lambda>k i j. fadd (at3 (self_cov dwe) k i j) (at3 c k i j))\<rparr>)"
  using assms by (simp add: add_err_cov_def inplace_op_def binop_same3 shape_mk3)

lemma add_err_uncorr_step:
  assumes "shape (self_cov dwe) = [n, b, b]" "self_n dwe = n" "self_nbins dwe = b"
    and "shape e = [n, b]"
  shows "add_err_uncorr dwe e
       = (None, dwe\<lparr>self_cov := mk3 n b b (\<lambda>k i j. fadd (at3 (self_cov dwe) k i j)
                      (fmul (fmul (delta i j) (at2 e k i)) (at2 e k j)))\<rparr>)"
proof -
  let ?I = "tile_mats (identity b) n"
  have sI: "shape ?I = [n, b, b]" by (simp add: tile_mats_def identity_def shape_mk2 shape_mk3)
  have aI: "\<And>k i j. k < n \<Longrightarrow> i < b \<Longrightarrow> j < b \<Longrightarrow> at3 ?I k i j = delta i j"
    by (simp add: tile_mats_def identity_def shape_mk2 at3_mk3 at2_mk2)
  let ?C = "mk3 n b b (\<lambda>k i j. fmul (fmul (at3 ?I k i j) (at2 e k i)) (at2 e k j))"
  have c: "corr2cov ?I e = Inr ?C"
    using sI assms(4) by (simp add: corr2cov_def einsum_kij_ki_kj_kij_same)
  have "mk3 n b b (\<lambda>k i j. fadd (at3 (self_cov dwe) k i j) (at3 ?C k i j))
      = mk3 n b b (\<lambda>k i j. fadd (at3 (self_cov dwe) k i j)
                      (fmul (fmul (delta i j) (at2 e k i)) (at2 e k j)))"
    by (rule mk3_cong) (simp add: at3_mk3 aI)
  then show ?thesis
    using assms(2,3) c add_err_cov_same[OF assms(1), of ?C]
    by (simp add: add_err_uncorr_def add_err_corr_def shape_mk3)
qed














section \<open>The chi-squared metric\<close>

lemma bdims_one_r: "bdims [d, Suc 0] = Some d"
  by (simp add: bdims_def)

lemma binop_scalar2:
  assumes "shape a = [r, c]"
  shows "binop f a (scalar x) = Inr (mk2 r c (\<lambda>i j. f (at2 a i j) x))"
proof -
  have "map (\<lambda>(k, i, j). f (get3 a k i j) (get3 (scalar x) k i j))
          (List.product [0..<1] (List.product [0..<r] [0..<c]))
      = map (\<lambda>(i, j). f (at2 a i j) x) (List.product [0..<r] [0..<c])"
    using assms by (auto simp: get3_def pad3_def at2_def bidx_lt comp_def scalar_def bidx_def)
  then show ?thesis using assms
    by (simp add: binop_def pad3_def bdims_same2 bdims_one_r mk3_def mk2_def scalar_def
          numeral_3_eq_3)
qed

lemma fdiv_as_fmul: "fdiv s (Fin (real b)) = fmul (fdiv (Fin 1) (Fin (real b))) s"
  by (cases s) (auto simp: inf_of_sign_def)

lemma shape_norms: "shape (self_data dwe) = [n, b] \<Longrightarrow> shape (norms dwe) = [n]"
  by (simp add: norms_def sum_axis1_def shape_mk1)

lemma linalg_inv_shape: "linalg_inv c = Inr ci \<Longrightarrow> shape ci = shape c"
  by (auto simp: linalg_inv_def shape_mk3 split: list.splits if_splits)

lemma corr_shape:
  assumes "shape (self_cov dwe) = [n, b, b]" "corr dwe = Inr c"
  shows "shape c = [n, b, b]"
  using assms by (auto simp: corr_def cov2corr_rank3 shape_mk3)

lemma einsum_kij_kj_ki_same:
  assumes "shape a = [n, b, b]" "shape u = [n, b]"
  shows "einsum_kij_kj_ki a u
       = Inr (mk2 n b (\<lambda>k i. fsum (map (\<lambda>j. fmul (at3 a k i j) (at2 u k j)) [0..<b])))"
proof -
  have "mk2 n b (\<lambda>k i. fsum (map (\<lambda>j. fmul (bat3 a k i j) (bat2 u k j)) [0..<b]))
      = mk2 n b (\<lambda>k i. fsum (map (\<lambda>j. fmul (at3 a k i j) (at2 u k j)) [0..<b]))"
  proof (rule mk2_cong)
    fix k i assume "k < n" "i < b"
    then show "fsum (map (\<lambda>j. fmul (bat3 a k i j) (bat2 u k j)) [0..<b])
             = fsum (map (\<lambda>j. fmul (at3 a k i j) (at2 u k j)) [0..<b])"
      using assms
      by (intro arg_cong[where f = fsum] map_cong[OF refl]) (simp add: bat3_def bat2_def bidx_lt)
  qed
  then show ?thesis using assms by (simp add: einsum_kij_kj_ki_def bdims_same2)
qed

lemma data_decorrelate:
  assumes "shape (self_data dwe) = [n, b]" "shape (self_cov dwe) = [n, b, b]"
    and "corr dwe = Inr c" "linalg_inv c = Inr ci"
  shows "data dwe False True
       = Inr (mk2 n b (\<lambda>k i. fsum (map (\<lambda>j. fmul (at3 ci k i j) (at2 (self_data dwe) k j)) [0..<b])))"
proof -
  have "shape ci = [n, b, b]"
    using linalg_inv_shape[OF assms(4)] corr_shape[OF assms(2,3)] by simp
  then show ?thesis using assms
    by (simp add: data_def and_then_def einsum_kij_kj_ki_same)
qed

lemma chi2_core:
  assumes sN: "shape N = [n]" and sD: "shape D = [n, b]" and sE: "shape E = [n, b]"
  shows "and_then (einsum_k_li_kli N D) (\<lambda>nom1.
      let nom2 = transpose_102 nom1 in
      and_then (binop fsub nom1 nom2) (\<lambda>diff.
      let nominator = amap fsquare diff in
      and_then (einsum_k_li_kli N E) (\<lambda>den1.
      let den2 = transpose_102 den1 in
      and_then (binop fadd (amap fsquare den1) (amap fsquare den2)) (\<lambda>denominator.
      and_then (binop fdiv nominator denominator) (\<lambda>summand.
      and_then (einsum_kli_kl summand) (\<lambda>chi2.
      binop fdiv chi2 (scalar (Fin (real b)))))))))
    = Inr (mk2 n n (chi2_formula N D E b))"
proof -
  define nom1 where "nom1 = mk3 n n b (\<lambda>k l i. fmul (at1 N k) (at2 D l i))"
  define nom2 where "nom2 = mk3 n n b (\<lambda>k l i. at3 nom1 l k i)"
  define diff where "diff = mk3 n n b (\<lambda>k l i. fsub (at3 nom1 k l i) (at3 nom2 k l i))"
  define nominator where "nominator = amap fsquare diff"
  define den1 where "den1 = mk3 n n b (\<lambda>k l i. fmul (at1 N k) (at2 E l i))"
  define den2 where "den2 = mk3 n n b (\<lambda>k l i. at3 den1 l k i)"
  define denominator where "denominator
    = mk3 n n b (\<lambda>k l i. fadd (at3 (amap fsquare den1) k l i) (at3 (amap fsquare den2) k l i))"
  define summand where "summand
    = mk3 n n b (\<lambda>k l i. fdiv (at3 nominator k l i) (at3 denominator k l i))"
  define chi2 where "chi2 = mk2 n n (\<lambda>k l. fsum (map (\<lambda>i. at3 summand k l i) [0..<b]))"
  have e1: "einsum_k_li_kli N D = Inr nom1"
    using sN sD by (simp add: einsum_k_li_kli_def nom1_def)
  have t1: "transpose_102 nom1 = nom2"
    by (simp add: transpose_102_def nom1_def nom2_def shape_mk3)
  have b1: "binop fsub nom1 nom2 = Inr diff"
    unfolding diff_def by (rule binop_same3) (simp_all add: nom1_def nom2_def shape_mk3)
  have e2: "einsum_k_li_kli N E = Inr den1"
    using sN sE by (simp add: einsum_k_li_kli_def den1_def)
  have t2: "transpose_102 den1 = den2"
    by (simp add: transpose_102_def den1_def den2_def shape_mk3)
  have b2: "binop fadd (amap fsquare den1) (amap fsquare den2) = Inr denominator"
    unfolding denominator_def
    by (rule binop_same3) (simp_all add: den1_def den2_def shape_amap shape_mk3)
  have b3: "binop fdiv nominator denominator = Inr summand"
    unfolding summand_def
    by (rule binop_same3)
       (simp_all add: nominator_def diff_def denominator_def shape_amap shape_mk3)
  have e3: "einsum_kli_kl summand = Inr chi2"
    by (simp add: einsum_kli_kl_def summand_def chi2_def shape_mk3)
  have b4: "binop fdiv chi2 (scalar (Fin (real b)))
          = Inr (mk2 n n (\<lambda>k l. fdiv (at2 chi2 k l) (Fin (real b))))"
    by (rule binop_scalar2) (simp add: chi2_def shape_mk2)
  have ent: "\<And>k l i. k < n \<Longrightarrow> l < n \<Longrightarrow> i < b \<Longrightarrow> at3 summand k l i
        = fdiv (fsquare (fsub (fmul (at1 N k) (at2 D l i)) (fmul (at1 N l) (at2 D k i))))
               (fadd (fsquare (fmul (at1 N k) (at2 E l i)))
                     (fsquare (fmul (at1 N l) (at2 E k i))))"
    by (simp add: summand_def nominator_def diff_def nom2_def nom1_def denominator_def
          den2_def den1_def amap_mk3 at3_mk3)
  have fin: "mk2 n n (\<lambda>k l. fdiv (at2 chi2 k l) (Fin (real b))) = mk2 n n (chi2_formula N D E b)"
  proof (rule mk2_cong)
    fix k l assume k: "k < n" and l: "l < n"
    have "map (\<lambda>i. at3 summand k l i) [0..<b]
        = map (\<lambda>i. fdiv (fsquare (fsub (fmul (at1 N k) (at2 D l i)) (fmul (at1 N l) (at2 D k i))))
               (fadd (fsquare (fmul (at1 N k) (at2 E l i)))
                     (fsquare (fmul (at1 N l) (at2 E k i))))) [0..<b]"
      using k l by (intro map_cong[OF refl]) (simp add: ent)
    then have "at2 chi2 k l = fsum (map (\<lambda>i. fdiv (fsquare (fsub (fmul (at1 N k) (at2 D l i)) (fmul (at1 N l) (at2 D k i))))
               (fadd (fsquare (fmul (at1 N k) (at2 E l i)))
                     (fsquare (fmul (at1 N l) (at2 E k i))))) [0..<b])"
      using k l by (simp only: chi2_def at2_mk2)
    then show "fdiv (at2 chi2 k l) (Fin (real b)) = chi2_formula N D E b k l"
      using fdiv_as_fmul[of "at2 chi2 k l" b] by (simp only: chi2_formula_def)
  qed
  show ?thesis
    by (simp only: e1 and_then_def sum.case Let_def t1 b1 e2 t2 b2
          nominator_def[symmetric] b3 e3 b4 fin)
qed


lemma err_shape:
  assumes "shape (self_cov dwe) = [n, b, b]"
  shows "err dwe False = Inr (mk2 n b (\<lambda>k i. fsqrt (at3 (self_cov dwe) k i i)))"
  using assms by (simp add: err_def cov2err_rank3)

lemma chi2_metric_eq:
  assumes ok: "dwe_ok dwe" and c: "corr dwe = Inr c" and ci: "linalg_inv c = Inr ci"
  shows "data dwe False True
           = Inr (mk2 (self_n dwe) (self_nbins dwe) (\<lambda>k i. fsum (map (\<lambda>j.
                    fmul (at3 ci k i j) (at2 (self_data dwe) k j)) [0..<self_nbins dwe])))"
    and "chi2_metric dwe
           = Inr (mk2 (self_n dwe) (self_n dwe)
               (chi2_formula (norms dwe)
                  (mk2 (self_n dwe) (self_nbins dwe) (\<lambda>k i. fsum (map (\<lambda>j.
                    fmul (at3 ci k i j) (at2 (self_data dwe) k j)) [0..<self_nbins dwe])))
                  (mk2 (self_n dwe) (self_nbins dwe) (\<lambda>k i. fsqrt (at3 (self_cov dwe) k i i)))
                  (self_nbins dwe)))"
proof -
  let ?n = "self_n dwe" and ?b = "self_nbins dwe"
  let ?D = "mk2 ?n ?b (\<lambda>k i. fsum (map (\<lambda>j.
                    fmul (at3 ci k i j) (at2 (self_data dwe) k j)) [0..<?b]))"
  let ?E = "mk2 ?n ?b (\<lambda>k i. fsqrt (at3 (self_cov dwe) k i i))"
  have sd: "shape (self_data dwe) = [?n, ?b]" and sc: "shape (self_cov dwe) = [?n, ?b, ?b]"
    using ok by (simp_all add: dwe_ok_def)
  show d: "data dwe False True = Inr ?D"
    using data_decorrelate[OF sd sc c ci] .
  have e: "err dwe False = Inr ?E" using err_shape[OF sc] .
  have core: "and_then (einsum_k_li_kli (norms dwe) ?D) (\<lambda>nom1.
      let nom2 = transpose_102 nom1 in
      and_then (binop fsub nom1 nom2) (\<lambda>diff.
      let nominator = amap fsquare diff in
      and_then (einsum_k_li_kli (norms dwe) ?E) (\<lambda>den1.
      let den2 = transpose_102 den1 in
      and_then (binop fadd (amap fsquare den1) (amap fsquare den2)) (\<lambda>denominator.
      and_then (binop fdiv nominator denominator) (\<lambda>summand.
      and_then (einsum_kli_kl summand) (\<lambda>chi2.
      binop fdiv chi2 (scalar (Fin (real ?b)))))))))
    = Inr (mk2 ?n ?n (chi2_formula (norms dwe) ?D ?E ?b))"
    by (rule chi2_core) (simp_all add: shape_norms[OF sd] shape_mk2)
  have "chi2_metric dwe = and_then (Inr ?D) (\<lambda>d. and_then (Inr ?E) (\<lambda>e.
      and_then (einsum_k_li_kli (norms dwe) d) (\<lambda>nom1.
      let nom2 = transpose_102 nom1 in
      and_then (binop fsub nom1 nom2) (\<lambda>diff.
      let nominator = amap fsquare diff in
      and_then (einsum_k_li_kli (norms dwe) e) (\<lambda>den1.
      let den2 = transpose_102 den1 in
      and_then (binop fadd (amap fsquare den1) (amap fsquare den2)) (\<lambda>denominator.
      and_then (binop fdiv nominator denominator) (\<lambda>summand.
      and_then (einsum_kli_kl summand) (\<lambda>chi2.
      binop fdiv chi2 (scalar (Fin (real ?b)))))))))))"
    unfolding chi2_metric_def Let_def d e ..
  also have "\<dots> = Inr (mk2 ?n ?n (chi2_formula (norms dwe) ?D ?E ?b))"
    using core by (simp add: and_then_def)
  finally show "chi2_metric dwe = Inr (mk2 ?n ?n (chi2_formula (norms dwe) ?D ?E ?b))" .
qed

text \<open>
  C1. For every dataset whose correlation matrices are inverted by \<^verbatim>\<open>np.linalg.inv\<close>,
  \<^verbatim>\<open>chi2_metric\<close> returns the \<open>n \<times> n\<close> matrix whose entry \<open>(k, l)\<close> is the formula of
  the specification, with \<open>N\<close> the norms, \<open>D\<close> the result of \<^verbatim>\<open>data(decorrelate=True)\<close>
  and \<open>E\<close> the result of \<^verbatim>\<open>err()\<close>, both of shape \<open>n \<times> b\<close>.
\<close>

theorem chi2_metric_formula:
  assumes "dwe_ok dwe" and "corr dwe = Inr c" and "linalg_inv c = Inr ci"
  shows "\<exists>D E. data dwe False True = Inr D \<and> shape D = [self_n dwe, self_nbins dwe]
           \<and> err dwe False = Inr E \<and> shape E = [self_n dwe, self_nbins dwe]
           \<and> chi2_metric dwe
               = Inr (mk2 (self_n dwe) (self_n dwe)
                        (chi2_formula (norms dwe) D E (self_nbins dwe)))"
proof -
  have sc: "shape (self_cov dwe) = [self_n dwe, self_nbins dwe, self_nbins dwe]"
    using assms(1) by (simp add: dwe_ok_def)
  show ?thesis
    using chi2_metric_eq[OF assms] err_shape[OF sc]
    by (intro exI conjI) (assumption | simp add: shape_mk2)+
qed

lemma dwe_err_built:
  "and_then (DataWithErrors_init \<lparr>shape = [2, 2], flat = [Fin 1, Fin 3, Fin 2, Fin 2]\<rparr>)
     (\<lambda>d. Inr (add_err_uncorr d \<lparr>shape = [2, 2], flat = [Fin 1, Fin 1, Fin 2, Fin 2]\<rparr>))
   = Inr (None, dwe_err)"
proof -
  let ?d = "\<lparr>self_data = \<lparr>shape = [2, 2], flat = [Fin 1, Fin 3, Fin 2, Fin 2]\<rparr>,
     self_n = 2, self_nbins = 2, self_cov = zeros3 2 2 2\<rparr>"
  have i: "DataWithErrors_init \<lparr>shape = [2, 2], flat = [Fin 1, Fin 3, Fin 2, Fin 2]\<rparr> = Inr ?d"
    by (simp add: DataWithErrors_init_def)
  have a: "add_err_uncorr ?d \<lparr>shape = [2, 2], flat = [Fin 1, Fin 1, Fin 2, Fin 2]\<rparr>
         = (None, dwe_err)"
    by (subst add_err_uncorr_step[where n = 2 and b = 2])
       (simp_all add: dwe_err_def zeros3_def mk3_def at3_def at2_def delta_def upt_small)
  show ?thesis by (simp add: i a and_then_def)
qed

lemma dwe_err_ok: "dwe_ok dwe_err"
  by (simp add: dwe_ok_def dwe_err_def wf_array_def)

lemma corr_dwe_err:
  "corr dwe_err = Inr \<lparr>shape = [2, 2, 2],
       flat = [Fin 1, Fin 0, Fin 0, Fin 1, Fin 1, Fin 0, Fin 0, Fin 1]\<rparr>"
  unfolding corr_def
  by (subst cov2corr_rank3[where n = 2 and b = 2])
     (simp_all add: dwe_err_def mk3_def at3_def upt_small)

lemma inv_dwe_err:
  "linalg_inv \<lparr>shape = [2, 2, 2],
       flat = [Fin 1, Fin 0, Fin 0, Fin 1, Fin 1, Fin 0, Fin 0, Fin 1]\<rparr>
   = Inr \<lparr>shape = [2, 2, 2],
       flat = [Fin 1, Fin 0, Fin 0, Fin 1, Fin 1, Fin 0, Fin 0, Fin 1]\<rparr>"
  by (simp add: linalg_inv_def mat_of_def at3_def upt_small inv_entry_def del_nth_def mk3_def)


lemma data_dwe_err:
  "data dwe_err False True = Inr \<lparr>shape = [2, 2], flat = [Fin 1, Fin 3, Fin 2, Fin 2]\<rparr>"
  by (subst data_decorrelate[OF _ _ corr_dwe_err inv_dwe_err, where n = 2 and b = 2])
     (simp_all add: dwe_err_def mk2_def at3_def at2_def fsum_def upt_small)

lemma err_dwe_err:
  "err dwe_err False = Inr \<lparr>shape = [2, 2], flat = [Fin 1, Fin 1, Fin 2, Fin 2]\<rparr>"
  by (subst err_shape[where n = 2 and b = 2])
     (simp_all add: dwe_err_def mk2_def at3_def upt_small)

lemma norms_dwe_err: "norms dwe_err = \<lparr>shape = [2], flat = [Fin 4, Fin 4]\<rparr>"
  by (simp add: norms_def sum_axis1_def dwe_err_def mk1_def at2_def fsum_def upt_small)

theorem chi2_metric_formula_witness:
  "chi2_metric dwe_err
     = Inr \<lparr>shape = [2, 2], flat = [Fin 0, Fin (1 / 5), Fin (1 / 5), Fin 0]\<rparr>"
proof -
  obtain D E where d: "data dwe_err False True = Inr D" and e: "err dwe_err False = Inr E"
    and m: "chi2_metric dwe_err
       = Inr (mk2 (self_n dwe_err) (self_n dwe_err)
                (chi2_formula (norms dwe_err) D E (self_nbins dwe_err)))"
    using chi2_metric_formula[OF dwe_err_ok corr_dwe_err inv_dwe_err] by blast
  have D: "D = \<lparr>shape = [2, 2], flat = [Fin 1, Fin 3, Fin 2, Fin 2]\<rparr>"
    using d data_dwe_err by simp
  have E: "E = \<lparr>shape = [2, 2], flat = [Fin 1, Fin 1, Fin 2, Fin 2]\<rparr>"
    using e err_dwe_err by simp
  have n: "self_n dwe_err = 2" "self_nbins dwe_err = 2" by (simp_all add: dwe_err_def)
  show ?thesis
    unfolding m n D E norms_dwe_err
    by (simp add: mk2_def chi2_formula_def at1_def at2_def fsum_def fsquare_def fsub_def
          upt_small)
qed


section \<open>Symmetry and the diagonal of the metric\<close>

lemma fsquare_fsub_swap: "fsquare (fsub x y) = fsquare (fsub y x)"
  by (cases x; cases y) (auto simp: fsquare_def fsub_def inf_of_sign_def algebra_simps)

lemma fadd_commute: "fadd x y = fadd y x"
  by (cases x; cases y) auto

lemma chi2_formula_symmetric: "chi2_formula N D E b k l = chi2_formula N D E b l k"
  unfolding chi2_formula_def
  by (simp add: fsquare_fsub_swap[of "fmul (at1 N k) (at2 D l _)"]
        fadd_commute[of "fsquare (fmul (at1 N k) (at2 E l _))"])

lemma chi2_metric_inverts:
  assumes "chi2_metric dwe = Inr M"
  shows "\<exists>c ci. corr dwe = Inr c \<and> linalg_inv c = Inr ci"
  using assms
  by (auto simp: chi2_metric_def data_def and_then_def Let_def split: sum.splits)

lemma dwe_zero_built:
  "and_then (DataWithErrors_init \<lparr>shape = [1, 1], flat = [Fin 0]\<rparr>)
     (\<lambda>d. Inr (add_err_uncorr d \<lparr>shape = [1, 1], flat = [Fin 1]\<rparr>))
   = Inr (None, dwe_zero)"
proof -
  let ?d = "\<lparr>self_data = \<lparr>shape = [1, 1], flat = [Fin 0]\<rparr>,
     self_n = 1, self_nbins = 1, self_cov = zeros3 1 1 1\<rparr>"
  have i: "DataWithErrors_init \<lparr>shape = [1, 1], flat = [Fin 0]\<rparr> = Inr ?d"
    by (simp add: DataWithErrors_init_def)
  have a: "add_err_uncorr ?d \<lparr>shape = [1, 1], flat = [Fin 1]\<rparr> = (None, dwe_zero)"
    by (subst add_err_uncorr_step[where n = 1 and b = 1])
       (simp_all add: dwe_zero_def zeros3_def mk3_def at3_def at2_def delta_def)
  show ?thesis by (simp only: i a and_then_def sum.case)
qed

theorem chi2_metric_diagonal_nan:
  "chi2_metric dwe_zero = Inr \<lparr>shape = [1, 1], flat = [NaN]\<rparr>
   \<and> at2 \<lparr>shape = [1, 1], flat = [NaN]\<rparr> 0 0 \<noteq> Fin 0"
proof -
  have ok: "dwe_ok dwe_zero" by (simp add: dwe_ok_def dwe_zero_def wf_array_def)
  have c: "corr dwe_zero = Inr \<lparr>shape = [1, 1, 1], flat = [Fin 1]\<rparr>"
    unfolding corr_def
    by (subst cov2corr_rank3[where n = 1 and b = 1])
       (simp_all add: dwe_zero_def mk3_def at3_def)
  have ci: "linalg_inv \<lparr>shape = [1, 1, 1], flat = [Fin 1]\<rparr>
          = Inr \<lparr>shape = [1, 1, 1], flat = [Fin 1]\<rparr>"
    by (simp add: linalg_inv_def mat_of_def at3_def inv_entry_def del_nth_def mk3_def)
  have n: "norms dwe_zero = \<lparr>shape = [1], flat = [Fin 0]\<rparr>"
    by (simp add: norms_def sum_axis1_def dwe_zero_def mk1_def at2_def fsum_def)
  have "chi2_metric dwe_zero = Inr \<lparr>shape = [1, 1], flat = [NaN]\<rparr>"
    unfolding chi2_metric_eq(2)[OF ok c ci] n
    by (simp add: dwe_zero_def mk2_def chi2_formula_def at1_def at2_def at3_def fsum_def
          fsquare_def fsub_def inf_of_sign_def)
  then show ?thesis by (simp add: at2_def)
qed

lemma diagonal_term_value:
  "fdiv (fsquare (fsub p p)) d
     = (if is_fin p \<and> d \<noteq> Fin 0 \<and> d \<noteq> NaN then Fin 0 else NaN)"
  by (cases p; cases d) (auto simp: fsquare_def fsub_def inf_of_sign_def)

lemma foldl_fadd_zero_nan:
  assumes "\<forall>x\<in>set xs. x = Fin 0 \<or> x = NaN"
  shows "foldl fadd (Fin 0) xs = (if NaN \<in> set xs then NaN else Fin 0)"
    and "foldl fadd NaN xs = NaN"
  using assms by (induction xs) auto

lemma fsum_zero_nan:
  assumes "\<forall>x\<in>set xs. x = Fin 0 \<or> x = NaN"
  shows "fsum xs = (if NaN \<in> set xs then NaN else Fin 0)"
  unfolding fsum_def using foldl_fadd_zero_nan(1)[OF assms] .

lemma chi2_formula_diagonal:
  "chi2_formula N D E b k k
     = (if 0 < b \<and> (\<forall>i<b. is_fin (chi2_product N D k i)
                          \<and> chi2_denominator N E k i \<noteq> Fin 0
                          \<and> chi2_denominator N E k i \<noteq> NaN)
        then Fin 0 else NaN)"
proof -
  let ?ok = "\<lambda>i. is_fin (chi2_product N D k i) \<and> chi2_denominator N E k i \<noteq> Fin 0
                 \<and> chi2_denominator N E k i \<noteq> NaN"
  let ?ts = "map (\<lambda>i. fdiv (fsquare (fsub (fmul (at1 N k) (at2 D k i))
                                           (fmul (at1 N k) (at2 D k i))))
               (fadd (fsquare (fmul (at1 N k) (at2 E k i)))
                     (fsquare (fmul (at1 N k) (at2 E k i))))) [0..<b]"
  have ts: "?ts = map (\<lambda>i. if ?ok i then Fin 0 else NaN) [0..<b]"
    by (simp add: diagonal_term_value chi2_product_def chi2_denominator_def)
  have zn: "\<forall>x\<in>set ?ts. x = Fin 0 \<or> x = NaN"
    unfolding ts by auto
  have mem: "(NaN \<in> set ?ts) = (\<not> (\<forall>i<b. ?ok i))"
    unfolding ts by auto
  have s: "fsum ?ts = (if \<forall>i<b. ?ok i then Fin 0 else NaN)"
    using fsum_zero_nan[OF zn] mem by simp
  show ?thesis
  proof (cases "0 < b")
    case True
    then show ?thesis
      unfolding chi2_formula_def s by (simp add: inf_of_sign_def)
  next
    case False
    then show ?thesis
      unfolding chi2_formula_def s by (simp add: inf_of_sign_def)
  qed
qed

text \<open>
  C2 (as amended). For every dataset on which \<^verbatim>\<open>chi2_metric\<close> returns, the result is an
  \<open>n \<times> n\<close> matrix that holds the same value at \<open>(k, l)\<close> and at \<open>(l, k)\<close>. A diagonal
  entry \<open>(k, k)\<close> is zero or \<open>nan\<close>. It is zero exactly when the dataset has at least one
  bin and, for every bin \<open>i\<close>, the product \<open>N[k] * D[k,i]\<close> as computed is finite and the
  denominator \<open>(N[k] * E[k,i])\<^sup>2 + (N[k] * E[k,i])\<^sup>2\<close> as computed is neither zero nor
  \<open>nan\<close>; a histogram of norm zero, for one, makes the denominator zero and the entry
  \<open>nan\<close>.
\<close>

theorem chi2_metric_symmetry_diagonal:
  assumes "dwe_ok dwe" and "chi2_metric dwe = Inr M"
    and "data dwe False True = Inr D" and "err dwe False = Inr E"
  shows "shape M = [self_n dwe, self_n dwe]
       \<and> (\<forall>k<self_n dwe. \<forall>l<self_n dwe. at2 M k l = at2 M l k)
       \<and> (\<forall>k<self_n dwe. at2 M k k =
            (if 0 < self_nbins dwe
                \<and> (\<forall>i<self_nbins dwe. is_fin (chi2_product (norms dwe) D k i)
                      \<and> chi2_denominator (norms dwe) E k i \<noteq> Fin 0
                      \<and> chi2_denominator (norms dwe) E k i \<noteq> NaN)
             then Fin 0 else NaN))"
proof -
  obtain c ci where c: "corr dwe = Inr c" and ci: "linalg_inv c = Inr ci"
    using chi2_metric_inverts[OF assms(2)] by blast
  let ?n = "self_n dwe" and ?b = "self_nbins dwe"
  have sc: "shape (self_cov dwe) = [?n, ?b, ?b]" using assms(1) by (simp add: dwe_ok_def)
  have D: "mk2 ?n ?b (\<lambda>k i. fsum (map (\<lambda>j.
               fmul (at3 ci k i j) (at2 (self_data dwe) k j)) [0..<?b])) = D"
    using chi2_metric_eq(1)[OF assms(1) c ci] assms(3) by simp
  have E: "mk2 ?n ?b (\<lambda>k i. fsqrt (at3 (self_cov dwe) k i i)) = E"
    using err_shape[OF sc] assms(4) by simp
  have M: "M = mk2 ?n ?n (chi2_formula (norms dwe) D E ?b)"
    using chi2_metric_eq(2)[OF assms(1) c ci] assms(2) unfolding D E by simp
  have sh: "shape M = [?n, ?n]" by (simp add: M shape_mk2)
  have sym: "\<forall>k<?n. \<forall>l<?n. at2 M k l = at2 M l k"
    using chi2_formula_symmetric by (simp add: M at2_mk2)
  have diag: "\<forall>k<?n. at2 M k k =
            (if 0 < ?b \<and> (\<forall>i<?b. is_fin (chi2_product (norms dwe) D k i)
                      \<and> chi2_denominator (norms dwe) E k i \<noteq> Fin 0
                      \<and> chi2_denominator (norms dwe) E k i \<noteq> NaN)
             then Fin 0 else NaN)"
    by (simp add: M at2_mk2 chi2_formula_diagonal)
  show ?thesis using sh sym diag by blast
qed

theorem chi2_metric_symmetry_diagonal_witness:
  "chi2_metric dwe_err
     = Inr \<lparr>shape = [2, 2], flat = [Fin 0, Fin (1 / 5), Fin (1 / 5), Fin 0]\<rparr>
   \<and> at2 \<lparr>shape = [2, 2], flat = [Fin 0, Fin (1 / 5), Fin (1 / 5), Fin 0]\<rparr> 0 1
       = at2 \<lparr>shape = [2, 2], flat = [Fin 0, Fin (1 / 5), Fin (1 / 5), Fin 0]\<rparr> 1 0
   \<and> at2 \<lparr>shape = [2, 2], flat = [Fin 0, Fin (1 / 5), Fin (1 / 5), Fin 0]\<rparr> 0 0 = Fin 0
   \<and> at2 \<lparr>shape = [2, 2], flat = [Fin 0, Fin (1 / 5), Fin (1 / 5), Fin 0]\<rparr> 1 1 = Fin 0
   \<and> chi2_denominator (norms dwe_err)
        \<lparr>shape = [2, 2], flat = [Fin 1, Fin 1, Fin 2, Fin 2]\<rparr> 0 0 = Fin 32"
proof -
  let ?M = "\<lparr>shape = [2, 2], flat = [Fin 0, Fin (1 / 5), Fin (1 / 5), Fin 0]\<rparr>"
  let ?D = "\<lparr>shape = [2, 2], flat = [Fin 1, Fin 3, Fin 2, Fin 2]\<rparr>"
  let ?E = "\<lparr>shape = [2, 2], flat = [Fin 1, Fin 1, Fin 2, Fin 2]\<rparr>"
  have m: "chi2_metric dwe_err = Inr ?M"
    unfolding chi2_metric_eq(2)[OF dwe_err_ok corr_dwe_err inv_dwe_err] norms_dwe_err
    by (simp add: dwe_err_def mk2_def chi2_formula_def at1_def at2_def at3_def fsum_def
          fsquare_def fsub_def upt_small)
  have n: "self_n dwe_err = 2" "self_nbins dwe_err = 2" by (simp_all add: dwe_err_def)
  have den: "chi2_denominator (norms dwe_err) ?E 0 0 = Fin 32"
    by (simp add: chi2_denominator_def norms_dwe_err at1_def at2_def fsquare_def)
  have t: "shape ?M = [self_n dwe_err, self_n dwe_err]
       \<and> (\<forall>k<self_n dwe_err. \<forall>l<self_n dwe_err. at2 ?M k l = at2 ?M l k)
       \<and> (\<forall>k<self_n dwe_err. at2 ?M k k =
            (if 0 < self_nbins dwe_err
                \<and> (\<forall>i<self_nbins dwe_err. is_fin (chi2_product (norms dwe_err) ?D k i)
                      \<and> chi2_denominator (norms dwe_err) ?E k i \<noteq> Fin 0
                      \<and> chi2_denominator (norms dwe_err) ?E k i \<noteq> NaN)
             then Fin 0 else NaN))"
    using chi2_metric_symmetry_diagonal[OF dwe_err_ok m data_dwe_err err_dwe_err] .
  show ?thesis using m den t by (simp add: at2_def)
qed


section \<open>Error injection with arguments of the wrong shape\<close>

lemma binop_error: "binop f a b = Inl e \<Longrightarrow> e = ValueError"
  by (auto simp: binop_def Let_def split: if_splits option.splits)

lemma inplace_op_error: "inplace_op f a b = Inl e \<Longrightarrow> e = ValueError"
  by (auto simp: inplace_op_def split: sum.splits if_splits dest: binop_error)

lemma corr2cov_error: "corr2cov cr er = Inl e \<Longrightarrow> e = ValueError"
  by (auto simp: corr2cov_def einsum_ij_i_j_ij_def einsum_kij_ki_kj_kij_def
           split: if_splits option.splits)

lemma rel2abs_cov_error: "rel2abs_cov c d = Inl e \<Longrightarrow> e = ValueError"
  by (auto simp: rel2abs_cov_def einsum_ij_ki_kj_kij_def split: if_splits option.splits)

lemma add_err_cov_fails:
  "fst (add_err_cov dwe c) = Some e \<Longrightarrow> e = ValueError \<and> snd (add_err_cov dwe c) = dwe"
  by (auto simp: add_err_cov_def split: sum.splits dest: inplace_op_error)

lemma add_err_corr_fails:
  "fst (add_err_corr dwe er cr) = Some e
   \<Longrightarrow> e = ValueError \<and> snd (add_err_corr dwe er cr) = dwe"
  by (auto simp: add_err_corr_def split: sum.splits
           dest: corr2cov_error add_err_cov_fails)

lemma add_rel_err_cov_fails:
  "fst (add_rel_err_cov dwe c) = Some e
   \<Longrightarrow> e = ValueError \<and> snd (add_rel_err_cov dwe c) = dwe"
  by (auto simp: add_rel_err_cov_def split: sum.splits
           dest: rel2abs_cov_error add_err_cov_fails)

lemma add_rel_err_corr_fails:
  "fst (add_rel_err_corr dwe er cr) = Some e
   \<Longrightarrow> e = ValueError \<and> snd (add_rel_err_corr dwe er cr) = dwe"
  by (auto simp: add_rel_err_corr_def split: sum.splits
           dest: corr2cov_error add_rel_err_cov_fails)

lemma add_err_cov_matrix:
  assumes "shape (self_cov dwe) = [n, b, b]" "shape c = [b, b]"
  shows "add_err_cov dwe c
       = (None, dwe\<lparr>self_cov := mk3 n b b (\<lambda>k i j. fadd (at3 (self_cov dwe) k i j) (at2 c i j))\<rparr>)"
proof -
  have "map (\<lambda>(k, i, j). fadd (get3 (self_cov dwe) k i j) (get3 c k i j))
          (List.product [0..<n] (List.product [0..<b] [0..<b]))
      = map (\<lambda>(k, i, j). fadd (at3 (self_cov dwe) k i j) (at2 c i j))
          (List.product [0..<n] (List.product [0..<b] [0..<b]))"
    using assms by (auto simp: get3_def pad3_def at3_def at2_def bidx_lt) (simp add: bidx_def)
  then have "binop fadd (self_cov dwe) c
      = Inr (mk3 n b b (\<lambda>k i j. fadd (at3 (self_cov dwe) k i j) (at2 c i j)))"
    using assms by (simp add: binop_def pad3_def bdims_same2 bdims_one_r mk3_def)
  then show ?thesis using assms(1)
    by (simp add: add_err_cov_def inplace_op_def shape_mk3)
qed

theorem add_err_cov_accepts_matrix:
  "add_err_cov dwe_2x2 cov_2x2
     = (None, dwe_2x2\<lparr>self_cov := \<lparr>shape = [2, 2, 2],
          flat = [Fin 4, Fin 1, Fin 1, Fin 9, Fin 4, Fin 1, Fin 1, Fin 9]\<rparr>\<rparr>)
   \<and> shape cov_2x2 \<noteq> [self_n dwe_2x2, self_nbins dwe_2x2, self_nbins dwe_2x2]
   \<and> self_cov dwe_2x2 \<noteq> \<lparr>shape = [2, 2, 2],
          flat = [Fin 4, Fin 1, Fin 1, Fin 9, Fin 4, Fin 1, Fin 1, Fin 9]\<rparr>"
proof -
  have "add_err_cov dwe_2x2 cov_2x2
     = (None, dwe_2x2\<lparr>self_cov := \<lparr>shape = [2, 2, 2],
          flat = [Fin 4, Fin 1, Fin 1, Fin 9, Fin 4, Fin 1, Fin 1, Fin 9]\<rparr>\<rparr>)"
    by (subst add_err_cov_matrix[where n = 2 and b = 2])
       (simp_all add: dwe_2x2_def cov_2x2_def zeros3_def mk3_def at3_def at2_def upt_small)
  then show ?thesis
    by (simp add: cov_2x2_def dwe_2x2_def zeros3_def mk3_def upt_small)
qed

lemma pad3_small:
  "pad3 [] = [1, 1, 1]" "pad3 [a] = [1, 1, a]" "pad3 [a, b] = [1, a, b]"
  "pad3 [a, b, c] = [a, b, c]"
  by (simp_all add: pad3_def numeral_3_eq_3)

lemma bdims2:
  "bdims [x, y] = (if x = y then Some x else if x = 1 then Some y
                   else if y = 1 then Some x else None)"
  by (auto simp: bdims_def)

lemma bdims3:
  "bdims [x, y, z] = (case bdims [x, y] of None \<Rightarrow> None | Some d \<Rightarrow> bdims [d, z])"
  by (auto simp: bdims_def)

lemma shape_cases:
  obtains "shape c = []" | z where "shape c = [z]" | y z where "shape c = [y, z]"
  | x y z where "shape c = [x, y, z]" | "3 < length (shape c)"
proof (cases "shape c")
  case Nil then show ?thesis using that by simp
next
  case (Cons a l1)
  then show ?thesis
  proof (cases l1)
    case Nil then show ?thesis using Cons that by simp
  next
    case (Cons b l2)
    note c2 = Cons
    then show ?thesis
    proof (cases l2)
      case Nil then show ?thesis using c2 \<open>shape c = a # l1\<close> that by simp
    next
      case (Cons d l3)
      then show ?thesis using c2 \<open>shape c = a # l1\<close> that by (cases l3) auto
    qed
  qed
qed

lemma inplace_add_accepts:
  assumes "shape a = [n, b, b]"
  shows "(\<exists>r. inplace_op f a c = Inr r) = broadcasts_to (shape c) [n, b, b]"
proof (cases c rule: shape_cases)
  case 1
  then show ?thesis using assms
    by (auto simp: inplace_op_def binop_def pad3_small bdims2 broadcasts_to_def fits_def Let_def)
next
  case (2 z)
  then show ?thesis using assms
    by (auto simp: inplace_op_def binop_def pad3_small bdims2 broadcasts_to_def fits_def Let_def)
next
  case (3 y z)
  then show ?thesis using assms
    by (auto simp: inplace_op_def binop_def pad3_small bdims2 broadcasts_to_def fits_def Let_def)
next
  case (4 x y z)
  then show ?thesis using assms
    by (auto simp: inplace_op_def binop_def pad3_small bdims2 broadcasts_to_def fits_def Let_def)
next
  case 5
  then show ?thesis using assms
    by (auto simp: inplace_op_def binop_def broadcasts_to_def)
qed


lemma add_err_cov_accepts:
  assumes "shape (self_cov dwe) = [n, b, b]"
  shows "(fst (add_err_cov dwe c) = None) = broadcasts_to (shape c) [n, b, b]"
proof -
  have "(fst (add_err_cov dwe c) = None) = (\<exists>r. inplace_op fadd (self_cov dwe) c = Inr r)"
    by (auto simp: add_err_cov_def split: sum.splits)
  then show ?thesis using inplace_add_accepts[OF assms] by simp
qed

lemma corr2cov_accepts3:
  "(\<exists>r. corr2cov cr er = Inr r \<and> broadcasts_to (shape r) [n, b, b])
   = (length (shape cr) = 3 \<and> broadcasts_to (shape cr) [n, b, b]
        \<and> length (shape er) = 2 \<and> broadcasts_to (shape er) [n, b]
      \<or> length (shape cr) = 2 \<and> broadcasts_to (shape cr) [b, b]
        \<and> length (shape er) = 1 \<and> broadcasts_to (shape er) [b])"
proof (cases cr rule: shape_cases)
  case 1
  then show ?thesis by (simp add: corr2cov_def)
next
  case (2 z)
  then show ?thesis by (simp add: corr2cov_def)
next
  case (3 c0 c1)
  then show ?thesis
    by (cases er rule: shape_cases)
       (auto simp: corr2cov_def einsum_ij_i_j_ij_def bdims2 shape_mk2 broadcasts_to_def
          fits_def split: if_splits)
next
  case (4 c0 c1 c2)
  then show ?thesis
    by (cases er rule: shape_cases)
       (auto simp: corr2cov_def einsum_kij_ki_kj_kij_def bdims2 bdims3 shape_mk3
          broadcasts_to_def fits_def split: if_splits)
next
  case 5
  then show ?thesis by (auto simp: corr2cov_def)
qed

lemma corr2cov_accepts2:
  "(\<exists>r. corr2cov cr er = Inr r \<and> length (shape r) = 2 \<and> broadcasts_to (shape r) [b, b])
   = (length (shape cr) = 2 \<and> broadcasts_to (shape cr) [b, b]
        \<and> length (shape er) = 1 \<and> broadcasts_to (shape er) [b])"
proof (cases cr rule: shape_cases)
  case 1
  then show ?thesis by (simp add: corr2cov_def)
next
  case (2 z)
  then show ?thesis by (simp add: corr2cov_def)
next
  case (3 c0 c1)
  then show ?thesis
    by (cases er rule: shape_cases)
       (auto simp: corr2cov_def einsum_ij_i_j_ij_def bdims2 shape_mk2 broadcasts_to_def
          fits_def split: if_splits)
next
  case (4 c0 c1 c2)
  then show ?thesis
    by (cases er rule: shape_cases)
       (auto simp: corr2cov_def einsum_kij_ki_kj_kij_def bdims2 bdims3 shape_mk3
          broadcasts_to_def fits_def split: if_splits option.splits)
next
  case 5
  then show ?thesis by (auto simp: corr2cov_def)
qed

lemma add_err_corr_accepts:
  assumes "shape (self_cov dwe) = [n, b, b]"
  shows "(fst (add_err_corr dwe er cr) = None)
   = (length (shape cr) = 3 \<and> broadcasts_to (shape cr) [n, b, b]
        \<and> length (shape er) = 2 \<and> broadcasts_to (shape er) [n, b]
      \<or> length (shape cr) = 2 \<and> broadcasts_to (shape cr) [b, b]
        \<and> length (shape er) = 1 \<and> broadcasts_to (shape er) [b])"
proof -
  have "(fst (add_err_corr dwe er cr) = None)
      = (\<exists>r. corr2cov cr er = Inr r \<and> broadcasts_to (shape r) [n, b, b])"
    using add_err_cov_accepts[OF assms]
    by (auto simp: add_err_corr_def split: sum.splits)
  then show ?thesis by (simp only: corr2cov_accepts3)
qed

lemma add_rel_err_cov_accepts:
  assumes "shape (self_cov dwe) = [n, b, b]" "shape (self_data dwe) = [n, b]"
  shows "(fst (add_rel_err_cov dwe c) = None)
       = (length (shape c) = 2 \<and> broadcasts_to (shape c) [b, b])"
proof -
  have a: "(fst (add_rel_err_cov dwe c) = None)
      = (\<exists>r. rel2abs_cov c (self_data dwe) = Inr r \<and> broadcasts_to (shape r) [n, b, b])"
    using add_err_cov_accepts[OF assms(1)]
    by (auto simp: add_rel_err_cov_def split: sum.splits)
  have "(\<exists>r. rel2abs_cov c (self_data dwe) = Inr r \<and> broadcasts_to (shape r) [n, b, b])
      = (length (shape c) = 2 \<and> broadcasts_to (shape c) [b, b])"
    using assms(2)
    by (cases c rule: shape_cases)
       (auto simp: rel2abs_cov_def einsum_ij_ki_kj_kij_def bdims2 shape_mk3
          broadcasts_to_def fits_def split: if_splits)
  then show ?thesis using a by simp
qed

lemma add_rel_err_corr_accepts:
  assumes "shape (self_cov dwe) = [n, b, b]" "shape (self_data dwe) = [n, b]"
  shows "(fst (add_rel_err_corr dwe er cr) = None)
       = (length (shape cr) = 2 \<and> broadcasts_to (shape cr) [b, b]
            \<and> length (shape er) = 1 \<and> broadcasts_to (shape er) [b])"
proof -
  have "(fst (add_rel_err_corr dwe er cr) = None)
      = (\<exists>r. corr2cov cr er = Inr r \<and> length (shape r) = 2 \<and> broadcasts_to (shape r) [b, b])"
    using add_rel_err_cov_accepts[OF assms]
    by (auto simp: add_rel_err_corr_def split: sum.splits)
  then show ?thesis by (simp only: corr2cov_accepts2)
qed


lemma accepted_or_rejected:
  assumes "(fst r = None) = A"
    and "\<And>e. fst r = Some e \<Longrightarrow> e = ValueError \<and> snd r = dwe"
  shows "if A then fst r = None else r = (Some ValueError, dwe)"
proof (cases A)
  case True
  then show ?thesis using assms(1) by simp
next
  case False
  then obtain e where e: "fst r = Some e" using assms(1) by (cases "fst r") auto
  then have "e = ValueError \<and> snd r = dwe" using assms(2) by blast
  then have "r = (Some ValueError, dwe)" using e by (cases r) simp
  then show ?thesis using False by simp
qed

text \<open>
  C5 (as amended). The error-injection methods validate no shapes and the program has
  no ShapeError; what decides is numpy's broadcasting. A call whose array argument
  cannot be broadcast to the expected shape fails with ValueError, raised before the
  accumulation, and leaves the dataset, its covariance tensor included, exactly as it
  was. A call whose argument can be broadcast is accepted, also when the argument does
  not have the expected shape: \<^verbatim>\<open>add_err_cov\<close> takes a single \<open>b \<times> b\<close> matrix (or any
  array of rank at most 3 whose axes have the expected length or length 1), and
  \<^verbatim>\<open>add_err_corr\<close> also takes a single \<open>b \<times> b\<close> correlation with a \<open>b\<close>-vector of errors.
  Here \<open>n = self_n dwe\<close> and \<open>b = self_nbins dwe\<close>.
\<close>

theorem error_injection_shapes:
  assumes "shape (self_cov dwe) = [self_n dwe, self_nbins dwe, self_nbins dwe]"
    and "shape (self_data dwe) = [self_n dwe, self_nbins dwe]"
  shows "(if broadcasts_to (shape c) [self_n dwe, self_nbins dwe, self_nbins dwe]
          then fst (add_err_cov dwe c) = None
          else add_err_cov dwe c = (Some ValueError, dwe))
   \<and> (if length (shape er) = 2 \<and> broadcasts_to (shape er) [self_n dwe, self_nbins dwe]
          then fst (add_err_uncorr dwe er) = None
          else add_err_uncorr dwe er = (Some ValueError, dwe))
   \<and> (if length (shape cr) = 3
             \<and> broadcasts_to (shape cr) [self_n dwe, self_nbins dwe, self_nbins dwe]
             \<and> length (shape er) = 2 \<and> broadcasts_to (shape er) [self_n dwe, self_nbins dwe]
           \<or> length (shape cr) = 2 \<and> broadcasts_to (shape cr) [self_nbins dwe, self_nbins dwe]
             \<and> length (shape er) = 1 \<and> broadcasts_to (shape er) [self_nbins dwe]
          then fst (add_err_corr dwe er cr) = None
          else add_err_corr dwe er cr = (Some ValueError, dwe))
   \<and> (if length (shape c) = 2 \<and> broadcasts_to (shape c) [self_nbins dwe, self_nbins dwe]
          then fst (add_rel_err_cov dwe c) = None
          else add_rel_err_cov dwe c = (Some ValueError, dwe))
   \<and> (if length (shape er) = 1 \<and> broadcasts_to (shape er) [self_nbins dwe]
          then fst (add_rel_err_uncorr dwe er) = None
          else add_rel_err_uncorr dwe er = (Some ValueError, dwe))
   \<and> (if length (shape er) = 1 \<and> broadcasts_to (shape er) [self_nbins dwe]
          then fst (add_rel_err_maxcorr dwe (Arr er)) = None
          else add_rel_err_maxcorr dwe (Arr er) = (Some ValueError, dwe))
   \<and> fst (add_rel_err_maxcorr dwe (PyFloat x)) = None
   \<and> (if length (shape cr) = 2 \<and> broadcasts_to (shape cr) [self_nbins dwe, self_nbins dwe]
             \<and> length (shape er) = 1 \<and> broadcasts_to (shape er) [self_nbins dwe]
          then fst (add_rel_err_corr dwe er cr) = None
          else add_rel_err_corr dwe er cr = (Some ValueError, dwe))"
proof -
  let ?n = "self_n dwe" and ?b = "self_nbins dwe"
  have sI: "shape (identity ?b) = [?b, ?b]" "shape (ones2 ?b ?b) = [?b, ?b]"
    "shape (tile_mats (identity ?b) ?n) = [?n, ?b, ?b]" "shape (mk1 ?b (\<lambda>i. x)) = [?b]"
    by (simp_all add: identity_def ones2_def tile_mats_def shape_mk1 shape_mk2 shape_mk3)
  have bt: "broadcasts_to [?n, ?b, ?b] [?n, ?b, ?b]" "broadcasts_to [?b, ?b] [?b, ?b]"
    "broadcasts_to [?b] [?b]"
    by (simp_all add: broadcasts_to_def fits_def)
  have 1: "(fst (add_err_cov dwe c) = None) = broadcasts_to (shape c) [?n, ?b, ?b]"
    using add_err_cov_accepts[OF assms(1)] .
  have 2: "(fst (add_err_uncorr dwe er) = None)
         = (length (shape er) = 2 \<and> broadcasts_to (shape er) [?n, ?b])"
    unfolding add_err_uncorr_def add_err_corr_accepts[OF assms(1)] by (simp add: sI bt)
  have 3: "(fst (add_err_corr dwe er cr) = None)
   = (length (shape cr) = 3 \<and> broadcasts_to (shape cr) [?n, ?b, ?b]
        \<and> length (shape er) = 2 \<and> broadcasts_to (shape er) [?n, ?b]
      \<or> length (shape cr) = 2 \<and> broadcasts_to (shape cr) [?b, ?b]
        \<and> length (shape er) = 1 \<and> broadcasts_to (shape er) [?b])"
    using add_err_corr_accepts[OF assms(1)] .
  have 4: "(fst (add_rel_err_cov dwe c) = None)
         = (length (shape c) = 2 \<and> broadcasts_to (shape c) [?b, ?b])"
    using add_rel_err_cov_accepts[OF assms] .
  have 5: "(fst (add_rel_err_uncorr dwe er) = None)
         = (length (shape er) = 1 \<and> broadcasts_to (shape er) [?b])"
    unfolding add_rel_err_uncorr_def add_rel_err_corr_accepts[OF assms] by (simp add: sI bt)
  have 6: "(fst (add_rel_err_maxcorr dwe (Arr er)) = None)
         = (length (shape er) = 1 \<and> broadcasts_to (shape er) [?b])"
    unfolding add_rel_err_maxcorr_def Let_def err_arg.case add_rel_err_corr_accepts[OF assms]
    by (simp add: sI bt)
  have 7: "fst (add_rel_err_maxcorr dwe (PyFloat x)) = None"
    unfolding add_rel_err_maxcorr_def Let_def err_arg.case add_rel_err_corr_accepts[OF assms]
    by (simp add: sI bt)
  have 8: "(fst (add_rel_err_corr dwe er cr) = None)
       = (length (shape cr) = 2 \<and> broadcasts_to (shape cr) [?b, ?b]
            \<and> length (shape er) = 1 \<and> broadcasts_to (shape er) [?b])"
    using add_rel_err_corr_accepts[OF assms] .
  have f2: "\<And>e. fst (add_err_uncorr dwe er) = Some e
      \<Longrightarrow> e = ValueError \<and> snd (add_err_uncorr dwe er) = dwe"
    unfolding add_err_uncorr_def by (rule add_err_corr_fails)
  have f5: "\<And>e. fst (add_rel_err_uncorr dwe er) = Some e
      \<Longrightarrow> e = ValueError \<and> snd (add_rel_err_uncorr dwe er) = dwe"
    unfolding add_rel_err_uncorr_def by (rule add_rel_err_corr_fails)
  have f6: "\<And>e. fst (add_rel_err_maxcorr dwe (Arr er)) = Some e
      \<Longrightarrow> e = ValueError \<and> snd (add_rel_err_maxcorr dwe (Arr er)) = dwe"
    unfolding add_rel_err_maxcorr_def Let_def err_arg.case by (rule add_rel_err_corr_fails)
  note c1 = accepted_or_rejected[OF 1 add_err_cov_fails]
  note c2 = accepted_or_rejected[OF 2 f2]
  note c3 = accepted_or_rejected[OF 3 add_err_corr_fails]
  note c4 = accepted_or_rejected[OF 4 add_rel_err_cov_fails]
  note c5 = accepted_or_rejected[OF 5 f5]
  note c6 = accepted_or_rejected[OF 6 f6]
  note c8 = accepted_or_rejected[OF 8 add_rel_err_corr_fails]
  show ?thesis
    using c1 c2 c3 c4 c5 c6 7 c8 by (intro conjI) assumption+
qed


theorem error_injection_shapes_witness:
  "add_err_cov dwe_2x2 \<lparr>shape = [3], flat = [Fin 1, Fin 1, Fin 1]\<rparr> = (Some ValueError, dwe_2x2)
   \<and> add_err_uncorr dwe_2x2 \<lparr>shape = [2, 3],
         flat = [Fin 1, Fin 1, Fin 1, Fin 1, Fin 1, Fin 1]\<rparr> = (Some ValueError, dwe_2x2)
   \<and> fst (add_err_cov dwe_2x2 cov_2x2) = None
   \<and> fst (add_err_uncorr dwe_2x2 err_a) = None"
proof -
  have c: "shape (self_cov dwe_2x2) = [self_n dwe_2x2, self_nbins dwe_2x2, self_nbins dwe_2x2]"
    by (simp add: dwe_2x2_def zeros3_def shape_mk3)
  have d: "shape (self_data dwe_2x2) = [self_n dwe_2x2, self_nbins dwe_2x2]"
    by (simp add: dwe_2x2_def)
  have n: "self_n dwe_2x2 = 2" "self_nbins dwe_2x2 = 2" by (simp_all add: dwe_2x2_def)
  show ?thesis
    using error_injection_shapes[OF c d,
        of "\<lparr>shape = [3], flat = [Fin 1, Fin 1, Fin 1]\<rparr>"
           "\<lparr>shape = [2, 3], flat = [Fin 1, Fin 1, Fin 1, Fin 1, Fin 1, Fin 1]\<rparr>"]
      error_injection_shapes[OF c d, of cov_2x2 err_a]
    by (simp add: n broadcasts_to_def fits_def cov_2x2_def err_a_def)
qed


section \<open>Returned arrays and the stored state\<close>

lemma heap_2x2_built:
  "heap_init [\<lparr>shape = [2, 2], flat = [Fin 1, Fin 2, Fin 3, Fin 4]\<rparr>] 0
     = (heap_2x2, Inr obj_2x2)"
  by (simp add: heap_init_def heap_2x2_def obj_2x2_def)







end
